theory Spec2Isabelle
  imports Main "HOL-Library.Char_ord" "HOL-Library.List_Lexorder" "HOL-Library.Multiset"
begin

section \<open>The regression harness \<open>verify_all_models.py\<close>\<close>

text \<open>
  The repository has two variants of the harness:
  \<^item> \<open>regression_tests/verify_all_models.py\<close> (the base variant: engine \<open>kalixcli sim\<close>,
    reference file \<open>mbal_for_verification.txt\<close>, console output only);
  \<^item> \<open>regression_tests/simulations/verify_all_models.py\<close> (the logging variant: engine
    \<open>kalix simulate\<close>, reference file \<open>mbal.txt\<close>, a log file written at the end).
  The definitions of the logging variant carry the suffix \<open>_sim\<close>.

  Python strings are modelled as \<open>string\<close> (byte strings; the two non-ASCII marks the
  harness prints are their UTF-8 bytes). The functions of the Python library that the
  harness calls (\<open>os.path\<close>, \<open>os.walk\<close>, \<open>subprocess.run\<close>, \<open>print\<close>, file removal and
  writing) are modelled by the definitions of the next subsections, on a POSIX system.
\<close>

subsection \<open>Strings\<close>

definition endswith :: "string \<Rightarrow> string \<Rightarrow> bool" where
  \<comment> \<open>\<open>s.endswith(suf)\<close>\<close>
  "endswith s suf = (take (length suf) (rev s) = rev suf)"

fun startswith :: "string \<Rightarrow> string \<Rightarrow> bool" where
  \<comment> \<open>\<open>s.startswith(pre)\<close>\<close>
  "startswith s [] = True"
| "startswith [] (p # ps) = False"
| "startswith (c # cs) (p # ps) = (c = p \<and> startswith cs ps)"

fun str_contains :: "string \<Rightarrow> string \<Rightarrow> bool" where
  \<comment> \<open>\<open>sub in s\<close>\<close>
  "str_contains [] sub = (sub = [])"
| "str_contains (c # cs) sub = (startswith (c # cs) sub \<or> str_contains cs sub)"

definition digit_char :: "nat \<Rightarrow> char" where
  "digit_char d = ''0123456789'' ! d"

fun str_nat :: "nat \<Rightarrow> string" where
  "str_nat n = (if n < 10 then [digit_char n] else str_nat (n div 10) @ [digit_char (n mod 10)])"

declare str_nat.simps [simp del]

definition str_int :: "int \<Rightarrow> string" where
  \<comment> \<open>\<open>str(i)\<close> of a Python integer\<close>
  "str_int i = (if i < 0 then ''-'' @ str_nat (nat (- i)) else str_nat (nat i))"

definition newline :: string where
  "newline = [CHR 0x0A]"

fun join_lines :: "string list \<Rightarrow> string" where
  \<comment> \<open>\<open>'\n'.join(lines)\<close>\<close>
  "join_lines [] = []"
| "join_lines [l] = l"
| "join_lines (l # m # ls) = l @ newline @ join_lines (m # ls)"

subsection \<open>\<open>os.path\<close> on POSIX\<close>

definition sep :: char where
  "sep = CHR ''/''"

definition after_last_sep :: "string \<Rightarrow> nat" where
  \<comment> \<open>\<open>p.rfind('/') + 1\<close>\<close>
  "after_last_sep p = length p - length (takeWhile (\<lambda>c. c \<noteq> sep) (rev p))"

definition rstrip_sep :: "string \<Rightarrow> string" where
  \<comment> \<open>\<open>head.rstrip('/')\<close>\<close>
  "rstrip_sep s = rev (dropWhile (\<lambda>c. c = sep) (rev s))"

definition os_path_dirname :: "string \<Rightarrow> string" where
  "os_path_dirname p =
     (let head = take (after_last_sep p) p
      in if head \<noteq> [] \<and> head \<noteq> replicate (length head) sep then rstrip_sep head else head)"

definition os_path_basename :: "string \<Rightarrow> string" where
  "os_path_basename p = drop (after_last_sep p) p"

definition os_path_join :: "string \<Rightarrow> string \<Rightarrow> string" where
  "os_path_join a b =
     (if startswith b [sep] then b
      else if a = [] \<or> endswith a [sep] then a @ b
      else a @ [sep] @ b)"

subsection \<open>The world the harness runs in\<close>

text \<open>
  A path names a file (with its content), a directory (with its entries, in the order in
  which the system enumerates them), or nothing. The tree below a directory is part of its
  node, and links are not modelled: every entry is a file or a directory.
\<close>

datatype node = File string | Dir "(string \<times> node) list"

text \<open>
  The exceptions of Python that matter here: \<open>TimeoutExpired\<close>; \<open>Exception\<close> stands for
  every other exception derived from Python's \<open>Exception\<close>, with its \<open>str(e)\<close>;
  \<open>BaseException\<close> for those that are not (\<open>KeyboardInterrupt\<close>, \<open>SystemExit\<close>).
\<close>

datatype py_exception = TimeoutExpired | Exception string | BaseException string

record completed_process =
  returncode :: int
  stdout :: string
  stderr :: string

record call =
  args :: "string list"
  cwd :: string
  timeout :: int

text \<open>
  The world:
  \<^item> \<open>fs\<close>: what each path names;
  \<^item> \<open>engine\<close>: what becomes of the child process that a call starts. It completes within
    the timeout of the call, with its exit status and its captured output (\<open>Inr\<close>); or it has
    not completed when the timeout of the call has passed (\<open>Inl TimeoutExpired\<close>); or starting
    it or talking to it raises (any other \<open>Inl\<close>);
  \<^item> \<open>relpath\<close>: the library function \<open>os.path.relpath\<close>, which depends on the working
    directory of the harness;
  \<^item> \<open>now_isoformat\<close>: the text of \<open>datetime.now().isoformat()\<close>;
  \<^item> \<open>write_fault\<close>: whether writing a text to an open file raises (a text that the encoding
    of the file cannot express, a full disk), and what the file then holds;
  \<^item> \<open>trace\<close>: what the harness has done so far: the messages printed, the children started
    and killed, the files removed, opened for writing and written.

  An engine run changes nothing that the harness looks at later; removing, opening or
  writing the log file changes what the path of the log names.
\<close>

datatype event =
  Printed string | Ran call | Killed call | Removed string | Opened string | Wrote string string

record world =
  fs :: "string \<Rightarrow> node option"
  engine :: "call \<Rightarrow> py_exception + completed_process"
  relpath :: "string \<Rightarrow> string \<Rightarrow> string"
  now_isoformat :: string
  write_fault :: "string \<Rightarrow> string \<Rightarrow> (py_exception \<times> string) option"
  trace :: "event list"

definition emit :: "event \<Rightarrow> world \<Rightarrow> world" where
  "emit e w = w\<lparr>trace := trace w @ [e]\<rparr>"

definition print :: "string \<Rightarrow> world \<Rightarrow> world" where
  "print message w = emit (Printed message) w"

definition os_path_exists :: "world \<Rightarrow> string \<Rightarrow> bool" where
  "os_path_exists w p = (fs w p \<noteq> None)"

definition subprocess_run ::
  "string list \<Rightarrow> string \<Rightarrow> int \<Rightarrow> world \<Rightarrow> (py_exception + completed_process) \<times> world" where
  \<comment> \<open>\<open>subprocess.run(args, cwd=cwd, capture_output=True, text=True, timeout=timeout)\<close>:
      a child that has not completed when the timeout has passed is killed, and
      \<open>TimeoutExpired\<close> is raised\<close>
  "subprocess_run a d t w =
     (let c = \<lparr>args = a, cwd = d, timeout = t\<rparr>;
          w1 = emit (Ran c) w
      in case engine w c of
           Inl TimeoutExpired \<Rightarrow> (Inl TimeoutExpired, emit (Killed c) w1)
         | r \<Rightarrow> (r, w1))"

subsection \<open>\<open>verify_model\<close>\<close>

type_synonym outcome = "bool \<times> string"

definition verify_model :: "string \<Rightarrow> string \<Rightarrow> world \<Rightarrow> (py_exception + outcome) \<times> world" where
  "verify_model model_path mbal_filename w =
     (let model_dir = os_path_dirname model_path;
          model_file = os_path_basename model_path;
          mbal_path = os_path_join model_dir mbal_filename
      in if \<not> os_path_exists w mbal_path
         then (Inr (False, ''Mass balance file not found: '' @ mbal_path), w)
         else
           (case subprocess_run [''kalixcli'', ''sim'', model_file, ''-v'', mbal_filename]
                   model_dir 300 w of
              (Inr result, w') \<Rightarrow>
                if returncode result = 0 then
                  if str_contains (stdout result) ''VERIFIED!''
                  then (Inr (True, ''VERIFIED!''), w')
                  else (Inr (False, ''Verification unclear: '' @ stdout result), w')
                else
                  (let error_msg = (if stderr result \<noteq> [] then stderr result else stdout result)
                   in (Inr (False, ''Failed: '' @ error_msg), w'))
            | (Inl TimeoutExpired, w') \<Rightarrow> (Inr (False, ''Timeout: Model took too long to run''), w')
            | (Inl (Exception e), w') \<Rightarrow> (Inr (False, ''Error: '' @ e), w')
            | (Inl (BaseException e), w') \<Rightarrow> (Inl (BaseException e), w')))"

definition verify_model_sim :: "string \<Rightarrow> string \<Rightarrow> world \<Rightarrow> (py_exception + outcome) \<times> world" where
  "verify_model_sim model_path mbal_filename w =
     (let model_dir = os_path_dirname model_path;
          model_file = os_path_basename model_path;
          mbal_path = os_path_join model_dir mbal_filename
      in if \<not> os_path_exists w mbal_path
         then (Inr (False, ''Mass balance file not found: '' @ mbal_path), w)
         else
           (case subprocess_run [''kalix'', ''simulate'', model_file, ''-v'', mbal_filename]
                   model_dir 300 w of
              (Inr result, w') \<Rightarrow>
                if returncode result = 0 then
                  if str_contains (stdout result) ''VERIFIED!''
                  then (Inr (True, ''VERIFIED!''), w')
                  else (Inr (False, ''Verification unclear: '' @ stdout result), w')
                else
                  (let error_msg = (if stderr result \<noteq> [] then stderr result else stdout result)
                   in (Inr (False, ''Failed: '' @ error_msg), w'))
            | (Inl TimeoutExpired, w') \<Rightarrow> (Inr (False, ''Timeout: Model took too long to run''), w')
            | (Inl (Exception e), w') \<Rightarrow> (Inr (False, ''Error: '' @ e), w')
            | (Inl (BaseException e), w') \<Rightarrow> (Inl (BaseException e), w')))"

subsection \<open>\<open>find_model_files\<close>\<close>

fun is_dir :: "node \<Rightarrow> bool" where
  "is_dir (Dir es) = True"
| "is_dir (File c) = False"

text \<open>
  \<open>os.walk(tp)\<close>, top-down, not following links: one triple (directory path, names of its
  sub-directories, names of its other entries) for the directory and then, in turn, the
  triples of each sub-directory. A path that is not a directory yields nothing.
\<close>

fun walk :: "string \<Rightarrow> node \<Rightarrow> (string \<times> string list \<times> string list) list" where
  "walk tp (File c) = []"
| "walk tp (Dir es) =
     (let dirs = filter (\<lambda>e. is_dir (snd e)) es;
          nondirs = filter (\<lambda>e. \<not> is_dir (snd e)) es
      in (tp, map fst dirs, map fst nondirs)
         # concat (map (\<lambda>e. walk (os_path_join tp (fst e)) (snd e)) dirs))"

definition os_walk :: "world \<Rightarrow> string \<Rightarrow> (string \<times> string list \<times> string list) list" where
  "os_walk w tp = (case fs w tp of None \<Rightarrow> [] | Some n \<Rightarrow> walk tp n)"

definition find_model_files :: "world \<Rightarrow> string \<Rightarrow> string list" where
  "find_model_files w root_dir =
     sort (concat (map (\<lambda>(root, dirs, files).
                          map (os_path_join root) (filter (\<lambda>file. endswith file ''.ini'') files))
                       (os_walk w root_dir)))"

subsection \<open>\<open>main\<close>, base variant\<close>

definition check_mark :: string where
  \<comment> \<open>U+2713 in UTF-8\<close>
  "check_mark = [CHR 0xE2, CHR 0x9C, CHR 0x93]"

definition cross_mark :: string where
  \<comment> \<open>U+2717 in UTF-8\<close>
  "cross_mark = [CHR 0xE2, CHR 0x9C, CHR 0x97]"

definition rule80 :: string where
  \<comment> \<open>\<open>"=" * 80\<close>\<close>
  "rule80 = replicate 80 CHR ''=''"

type_synonym result = "string \<times> bool \<times> string"

text \<open>\<open>sys.exit(n)\<close> ends the process with status \<open>n\<close>; an exception nobody catches ends it too.\<close>

datatype exit_status = Exit int | Uncaught py_exception

text \<open>The loop over the model files; \<open>verify_model\<close> is called with its default reference file name.\<close>

fun verify_each ::
  "string \<Rightarrow> string list \<Rightarrow> result list \<Rightarrow> world \<Rightarrow> (py_exception + result list) \<times> world" where
  "verify_each root_dir [] results w = (Inr results, w)"
| "verify_each root_dir (model_path # rest) results w =
     (let rel_path = relpath w model_path root_dir;
          w1 = print (''Verifying: '' @ rel_path) w
      in case verify_model model_path ''mbal_for_verification.txt'' w1 of
           (Inl e, w2) \<Rightarrow> (Inl e, w2)
         | (Inr (success, message), w2) \<Rightarrow>
             (let results' = results @ [(rel_path, success, message)];
                  w3 = (if success then print (''  '' @ check_mark @ '' '' @ message) w2
                        else print (''  '' @ cross_mark @ '' '' @ message) w2);
                  w4 = print [] w3
              in verify_each root_dir rest results' w4))"

fun print_failed :: "result list \<Rightarrow> world \<Rightarrow> world" where
  "print_failed [] w = w"
| "print_failed ((rel_path, success, message) # rest) w =
     (if \<not> success
      then print_failed rest (print (''    '' @ message) (print (''  - '' @ rel_path) w))
      else print_failed rest w)"

definition count_passed :: "result list \<Rightarrow> int" where
  \<comment> \<open>\<open>sum(1 for _, success, _ in results if success)\<close>\<close>
  "count_passed results = int (length (filter (\<lambda>(rel_path, success, message). success) results))"

definition main :: "string list \<Rightarrow> string \<Rightarrow> world \<Rightarrow> exit_status \<times> world" where
  "main argv script_dir w =
     (let root_dir = (if length argv > 1 then argv ! 1 else script_dir);
          w1 = print (''Searching for model files in: '' @ root_dir) w;
          w2 = print rule80 w1;
          model_files = find_model_files w2 root_dir
      in if model_files = [] then (Exit 1, print ''No .ini files found!'' w2)
         else
           (let w3 = print (''Found '' @ str_int (int (length model_files)) @ '' model file(s)''
                            @ newline) w2
            in case verify_each root_dir model_files [] w3 of
                 (Inl e, w4) \<Rightarrow> (Uncaught e, w4)
               | (Inr results, w4) \<Rightarrow>
                   (let w5 = print rule80 (print ''SUMMARY'' (print rule80 w4));
                        passed = count_passed results;
                        failed = int (length results) - passed;
                        w6 = print (''Total: '' @ str_int (int (length results))) w5;
                        w7 = print (''Passed: '' @ str_int passed) w6;
                        w8 = print (''Failed: '' @ str_int failed) w7
                    in if failed > 0
                       then (Exit 1, print_failed results (print (newline @ ''Failed models:'') w8))
                       else (Exit 0, print (newline @ check_mark
                                            @ '' All models verified successfully!'') w8))))"

subsection \<open>\<open>main\<close>, logging variant\<close>

text \<open>
  \<open>log\<close> prints a message and appends it to the local list \<open>output_lines\<close>, which is
  threaded beside the world.
\<close>

definition log :: "string \<Rightarrow> world \<times> string list \<Rightarrow> world \<times> string list" where
  "log message s = (case s of (w, output_lines) \<Rightarrow> (print message w, output_lines @ [message]))"

definition os_remove :: "string \<Rightarrow> world \<Rightarrow> py_exception + world" where
  \<comment> \<open>\<open>os.remove(p)\<close>: removes a file, raises \<open>OSError\<close> on a directory or a missing path\<close>
  "os_remove p w =
     (case fs w p of
        Some (File c) \<Rightarrow> Inr (emit (Removed p) (w\<lparr>fs := (fs w)(p := None)\<rparr>))
      | Some (Dir es) \<Rightarrow> Inl (Exception (''Is a directory: '' @ p))
      | None \<Rightarrow> Inl (Exception (''No such file or directory: '' @ p)))"

definition open_w :: "string \<Rightarrow> world \<Rightarrow> py_exception + world" where
  \<comment> \<open>\<open>open(p, 'w')\<close>: creates the file, or empties the one that is there\<close>
  "open_w p w =
     (case fs w p of
        Some (Dir es) \<Rightarrow> Inl (Exception (''Is a directory: '' @ p))
      | _ \<Rightarrow> Inr (emit (Opened p) (w\<lparr>fs := (fs w)(p \<mapsto> File [])\<rparr>)))"

definition f_write :: "string \<Rightarrow> string \<Rightarrow> world \<Rightarrow> py_exception option \<times> world" where
  \<comment> \<open>\<open>f.write(content)\<close> on the open file, and the closing of the file at the end of \<open>with\<close>\<close>
  "f_write p content w =
     (case write_fault w p content of
        Some (e, left) \<Rightarrow> (Some e, w\<lparr>fs := (fs w)(p \<mapsto> File left)\<rparr>)
      | None \<Rightarrow> (None, emit (Wrote p content) (w\<lparr>fs := (fs w)(p \<mapsto> File content)\<rparr>)))"

definition write_file :: "string \<Rightarrow> string \<Rightarrow> world \<Rightarrow> py_exception option \<times> world" where
  \<comment> \<open>\<open>with open(p, 'w') as f: f.write(content)\<close>\<close>
  "write_file p content w =
     (case open_w p w of
        Inl e \<Rightarrow> (Some e, w)
      | Inr w1 \<Rightarrow> f_write p content w1)"

fun verify_each_sim ::
  "string \<Rightarrow> string list \<Rightarrow> result list \<Rightarrow> world \<times> string list
     \<Rightarrow> (py_exception + result list) \<times> world \<times> string list" where
  "verify_each_sim root_dir [] results s = (Inr results, s)"
| "verify_each_sim root_dir (model_path # rest) results s =
     (let rel_path = relpath (fst s) model_path root_dir;
          s1 = log (''Verifying: '' @ rel_path) s
      in case verify_model_sim model_path ''mbal.txt'' (fst s1) of
           (Inl e, w2) \<Rightarrow> (Inl e, w2, snd s1)
         | (Inr (success, message), w2) \<Rightarrow>
             (let results' = results @ [(rel_path, success, message)];
                  s3 = (if success then log (''  '' @ check_mark @ '' '' @ message) (w2, snd s1)
                        else log (''  '' @ cross_mark @ '' '' @ message) (w2, snd s1));
                  s4 = log [] s3
              in verify_each_sim root_dir rest results' s4))"

fun log_failed :: "result list \<Rightarrow> world \<times> string list \<Rightarrow> world \<times> string list" where
  "log_failed [] s = s"
| "log_failed ((rel_path, success, message) # rest) s =
     (if \<not> success
      then log_failed rest (log (''    '' @ message) (log (''  - '' @ rel_path) s))
      else log_failed rest s)"

definition run_sim ::
  "string list \<Rightarrow> string \<Rightarrow> string \<Rightarrow> world \<times> string list \<Rightarrow> exit_status \<times> world" where
  \<comment> \<open>the body of \<open>main\<close> from the choice of the root directory on\<close>
  "run_sim argv script_dir log_file s =
     (let root_dir = (if length argv > 1 then argv ! 1 else script_dir);
          s1 = log (''Searching for model files in: '' @ root_dir) s;
          s2 = log rule80 s1;
          model_files = find_model_files (fst s2) root_dir
      in if model_files = [] then (Exit 1, fst (log ''No .ini files found!'' s2))
         else
           (let s3 = log (''Found '' @ str_int (int (length model_files)) @ '' model file(s)''
                          @ newline) s2
            in case verify_each_sim root_dir model_files [] s3 of
                 (Inl e, s4) \<Rightarrow> (Uncaught e, fst s4)
               | (Inr results, s4) \<Rightarrow>
                   (let s5 = log (''Timestamp: '' @ now_isoformat (fst s4))
                               (log rule80 (log ''SUMMARY'' (log rule80 s4)));
                        passed = count_passed results;
                        failed = int (length results) - passed;
                        s6 = log (''Total: '' @ str_int (int (length results))) s5;
                        s7 = log (''Passed: '' @ str_int passed) s6;
                        s8 = log (''Failed: '' @ str_int failed) s7;
                        s9 = (if failed > 0
                              then log_failed results (log (newline @ ''Failed models:'') s8)
                              else log (newline @ check_mark
                                        @ '' All models verified successfully!'') s8)
                    in case write_file log_file (join_lines (snd s9) @ newline) (fst s9) of
                         (Some e, w10) \<Rightarrow> (Uncaught e, w10)
                       | (None, w10) \<Rightarrow> (Exit (if failed > 0 then 1 else 0), w10))))"

definition main_sim :: "string list \<Rightarrow> string \<Rightarrow> world \<Rightarrow> exit_status \<times> world" where
  "main_sim argv script_dir w =
     (let log_file = os_path_join script_dir ''verify_all_models_log.txt''
      in if os_path_exists w log_file
         then (case os_remove log_file w of
                 Inl e \<Rightarrow> (Uncaught e, w)
               | Inr w0 \<Rightarrow> run_sim argv script_dir log_file (w0, []))
         else run_sim argv script_dir log_file (w, []))"

subsection \<open>Notions used to state the properties\<close>

text \<open>The call of the engine that each variant makes for a model, and the path of its reference file.\<close>

definition kalixcli_call :: "string \<Rightarrow> string \<Rightarrow> call" where
  "kalixcli_call model_path mbal_filename =
     \<lparr>args = [''kalixcli'', ''sim'', os_path_basename model_path, ''-v'', mbal_filename],
      cwd = os_path_dirname model_path, timeout = 300\<rparr>"

definition kalix_call :: "string \<Rightarrow> string \<Rightarrow> call" where
  "kalix_call model_path mbal_filename =
     \<lparr>args = [''kalix'', ''simulate'', os_path_basename model_path, ''-v'', mbal_filename],
      cwd = os_path_dirname model_path, timeout = 300\<rparr>"

definition mbal_path_of :: "string \<Rightarrow> string \<Rightarrow> string" where
  "mbal_path_of model_path mbal_filename = os_path_join (os_path_dirname model_path) mbal_filename"

definition has_substring :: "string \<Rightarrow> string \<Rightarrow> bool" where
  "has_substring s sub = (\<exists>ps ss. s = ps @ sub @ ss)"

text \<open>
  The events of one engine run, and the engine invocations, the printed messages and the
  file operations of a trace.
\<close>

definition run_events :: "world \<Rightarrow> call \<Rightarrow> event list" where
  "run_events w c = Ran c # (if engine w c = Inl TimeoutExpired then [Killed c] else [])"

fun runs :: "event list \<Rightarrow> call list" where
  "runs [] = []"
| "runs (Ran c # evs) = c # runs evs"
| "runs (e # evs) = runs evs"

fun printed :: "event list \<Rightarrow> string list" where
  "printed [] = []"
| "printed (Printed m # evs) = m # printed evs"
| "printed (e # evs) = printed evs"

fun file_events :: "event list \<Rightarrow> event list" where
  "file_events [] = []"
| "file_events (Removed p # evs) = Removed p # file_events evs"
| "file_events (Opened p # evs) = Opened p # file_events evs"
| "file_events (Wrote p c # evs) = Wrote p c # file_events evs"
| "file_events (e # evs) = file_events evs"

text \<open>
  The files of a directory tree, each with its name and its path, found by descending into
  every entry in turn.
\<close>

fun files_below :: "string \<Rightarrow> node \<Rightarrow> (string \<times> string) list" where
  "files_below d (File c) = []"
| "files_below d (Dir es) =
     concat (map (\<lambda>e. if is_dir (snd e) then files_below (os_path_join d (fst e)) (snd e)
                       else [(fst e, os_path_join d (fst e))]) es)"

definition files_in :: "world \<Rightarrow> string \<Rightarrow> (string \<times> string) list" where
  "files_in w root_dir = (case fs w root_dir of None \<Rightarrow> [] | Some n \<Rightarrow> files_below root_dir n)"

text \<open>
  Two trees hold the same files when they differ only in the order in which each directory
  lists its entries and in what the files contain.
\<close>

inductive same_files :: "node \<Rightarrow> node \<Rightarrow> bool" where
  files: "same_files (File c) (File c')"
| dirs: "list_all2 (\<lambda>e e'. fst e = fst e' \<and> same_files (snd e) (snd e')) es es'' \<Longrightarrow>
         mset es'' = mset es' \<Longrightarrow> same_files (Dir es) (Dir es')"

definition ini_paths :: "(string \<times> string list \<times> string list) list \<Rightarrow> string list" where
  \<comment> \<open>what the two nested loops of \<open>find_model_files\<close> collect\<close>
  "ini_paths triples =
     concat (map (\<lambda>(root, dirs, files).
                    map (os_path_join root) (filter (\<lambda>file. endswith file ''.ini'') files))
                 triples)"

definition spec_paths :: "(string \<times> string) list \<Rightarrow> string list" where
  "spec_paths nps = map snd (filter (\<lambda>f. endswith (fst f) ''.ini'') nps)"

text \<open>
  The entry of the results list for a model whose run returns, and the lines the harness
  prints around the loop.
\<close>

definition result_of :: "world \<Rightarrow> string \<Rightarrow> string \<Rightarrow> result" where
  "result_of w root_dir model_path =
     (relpath w model_path root_dir,
      projr (fst (verify_model model_path ''mbal_for_verification.txt'' w)))"

definition mark_line :: "bool \<Rightarrow> string \<Rightarrow> string" where
  "mark_line success message = ''  '' @ (if success then check_mark else cross_mark) @ '' '' @ message"

definition root_dir_of :: "string list \<Rightarrow> string \<Rightarrow> string" where
  "root_dir_of argv script_dir = (if length argv > 1 then argv ! 1 else script_dir)"

definition header :: "string \<Rightarrow> string list" where
  "header root_dir = [''Searching for model files in: '' @ root_dir, rule80]"

definition summary_lines :: "result list \<Rightarrow> string list" where
  "summary_lines results =
     [''Total: '' @ str_int (int (length results)),
      ''Passed: '' @ str_int (count_passed results),
      ''Failed: '' @ str_int (int (length results) - count_passed results)]"

definition result_of_sim :: "world \<Rightarrow> string \<Rightarrow> string \<Rightarrow> result" where
  "result_of_sim w root_dir model_path =
     (relpath w model_path root_dir, projr (fst (verify_model_sim model_path ''mbal.txt'' w)))"

definition found_line :: "nat \<Rightarrow> string" where
  "found_line n = ''Found '' @ str_int (int n) @ '' model file(s)'' @ newline"

text \<open>
  The log file of the logging variant, the world once an old log has been removed, and the
  event of that removal.
\<close>

definition log_path :: "string \<Rightarrow> string" where
  "log_path script_dir = os_path_join script_dir ''verify_all_models_log.txt''"

definition cleared :: "string \<Rightarrow> world \<Rightarrow> world" where
  "cleared script_dir w = w\<lparr>fs := (fs w)(log_path script_dir := None)\<rparr>"

definition removal :: "string \<Rightarrow> world \<Rightarrow> event list" where
  "removal script_dir w =
     (if os_path_exists w (log_path script_dir) then [Removed (log_path script_dir)] else [])"

text \<open>What \<open>print\<close> has written to the console: every message followed by a newline.\<close>

definition finish :: "int \<Rightarrow> py_exception option \<times> world \<Rightarrow> exit_status \<times> world" where
  \<comment> \<open>how the logging variant ends once the log has been written, or could not be\<close>
  "finish code r = (case r of (Some e, w) \<Rightarrow> (Uncaught e, w) | (None, w) \<Rightarrow> (Exit code, w))"

definition console_text :: "event list \<Rightarrow> string" where
  "console_text evs = concat (map (\<lambda>message. message @ newline) (printed evs))"

subsection \<open>A small world for the examples\<close>

definition example_tree :: node where
  "example_tree =
     Dir [(''notes.txt'', File ''n''),
          (''b'', Dir [(''model.ini'', File ''[b]''), (''mbal.txt'', File ''1''),
                       (''mbal_for_verification.txt'', File ''1'')]),
          (''a'', Dir [(''model.ini'', File ''[a]''), (''old.ini'', File ''[old]'')])]"

definition example_tree' :: node where
  "example_tree' =
     Dir [(''a'', Dir [(''old.ini'', File []), (''model.ini'', File [])]),
          (''b'', Dir [(''mbal_for_verification.txt'', File ''2''), (''mbal.txt'', File ''2''),
                       (''model.ini'', File [])]),
          (''notes.txt'', File [])]"

definition example_fs :: "string \<Rightarrow> node option" where
  "example_fs =
     map_of [(''cases'', example_tree),
             (''cases/b'', Dir [(''model.ini'', File ''[b]''), (''mbal.txt'', File ''1''),
                               (''mbal_for_verification.txt'', File ''1'')]),
             (''cases/b/mbal.txt'', File ''1''),
             (''cases/b/mbal_for_verification.txt'', File ''1''),
             (''tools/verify_all_models_log.txt'', File ''stale'')]"

definition example_argv :: "string list" where
  "example_argv = [''tools/verify_all_models.py'', ''cases'']"

definition example_engine :: "call \<Rightarrow> py_exception + completed_process" where
  "example_engine c =
     (if cwd c = ''cases/b'' then Inr \<lparr>returncode = 0, stdout = ''run ok: VERIFIED!'', stderr = []\<rparr>
      else Inl (Exception ''no engine''))"

definition example_world :: "(call \<Rightarrow> py_exception + completed_process) \<Rightarrow> world" where
  "example_world eng =
     \<lparr>fs = example_fs, engine = eng, relpath = (\<lambda>p start. drop (Suc (length start)) p),
      now_isoformat = ''2025-01-01T00:00:00'', write_fault = (\<lambda>p content. None), trace = []\<rparr>"

text \<open>The same world, where the text of the log cannot be written to the log file.\<close>

definition unwritable_world :: world where
  "unwritable_world =
     (example_world example_engine)
       \<lparr>write_fault := (\<lambda>p content. Some (Exception ''UnicodeEncodeError'', []))\<rparr>"

definition exits :: "int \<Rightarrow> string \<Rightarrow> string \<Rightarrow> call \<Rightarrow> py_exception + completed_process" where
  "exits rc out err c = Inr \<lparr>returncode = rc, stdout = out, stderr = err\<rparr>"

definition raises :: "py_exception \<Rightarrow> call \<Rightarrow> py_exception + completed_process" where
  "raises e c = Inl e"

section \<open>Properties\<close>

subsection \<open>Strings and paths\<close>

lemma startswith_iff: "startswith s p \<longleftrightarrow> (\<exists>ss. s = p @ ss)"
  by (induction s p rule: startswith.induct) auto

lemma str_contains_iff: "str_contains s sub \<longleftrightarrow> has_substring s sub"
proof (induction s)
  case Nil
  then show ?case by (auto simp: has_substring_def)
next
  case (Cons c cs)
  show ?case
  proof
    assume "str_contains (c # cs) sub"
    then consider "startswith (c # cs) sub" | "str_contains cs sub" by auto
    then show "has_substring (c # cs) sub"
    proof cases
      case 1
      then obtain ss where "c # cs = sub @ ss" by (auto simp: startswith_iff)
      then have "c # cs = [] @ sub @ ss" by simp
      then show ?thesis unfolding has_substring_def by blast
    next
      case 2
      with Cons obtain ps ss where "cs = ps @ sub @ ss" by (auto simp: has_substring_def)
      then have "c # cs = (c # ps) @ sub @ ss" by simp
      then show ?thesis unfolding has_substring_def by blast
    qed
  next
    assume "has_substring (c # cs) sub"
    then obtain ps ss where eq: "c # cs = ps @ sub @ ss" by (auto simp: has_substring_def)
    show "str_contains (c # cs) sub"
    proof (cases ps)
      case Nil
      with eq have "startswith (c # cs) sub" by (auto simp: startswith_iff)
      then show ?thesis by simp
    next
      case (Cons q qs)
      with eq have "cs = qs @ sub @ ss" by simp
      then have "has_substring cs sub" unfolding has_substring_def by blast
      with Cons.IH show ?thesis by simp
    qed
  qed
qed

lemma has_substring_suffix: "has_substring (pre @ s) s"
  unfolding has_substring_def by (rule exI [of _ pre], rule exI [of _ "[]"]) simp

lemmas path_defs = os_path_join_def os_path_dirname_def os_path_basename_def after_last_sep_def
  rstrip_sep_def endswith_def sep_def

lemma example_mbal_path:
  "mbal_path_of ''cases/b/model.ini'' ''mbal.txt'' = ''cases/b/mbal.txt''"
  "mbal_path_of ''cases/b/model.ini'' ''mbal_for_verification.txt''
     = ''cases/b/mbal_for_verification.txt''"
  "mbal_path_of ''cases/a/model.ini'' ''mbal.txt'' = ''cases/a/mbal.txt''"
  "mbal_path_of ''cases/a/model.ini'' ''mbal_for_verification.txt''
     = ''cases/a/mbal_for_verification.txt''"
  by (simp_all add: mbal_path_of_def path_defs)

lemma example_exists:
  "os_path_exists (example_world e) ''cases/b/mbal.txt''"
  "os_path_exists (example_world e) ''cases/b/mbal_for_verification.txt''"
  "\<not> os_path_exists (example_world e) ''cases/a/mbal.txt''"
  "\<not> os_path_exists (example_world e) ''cases/a/mbal_for_verification.txt''"
  by (simp_all add: os_path_exists_def example_world_def example_fs_def)

subsection \<open>\<open>verify_model\<close>\<close>

lemma verify_model_run:
  assumes "os_path_exists w (mbal_path_of p m)"
  shows "verify_model p m w =
     (case engine w (kalixcli_call p m) of
        Inr result \<Rightarrow>
          (if returncode result = 0 then
             if str_contains (stdout result) ''VERIFIED!'' then Inr (True, ''VERIFIED!'')
             else Inr (False, ''Verification unclear: '' @ stdout result)
           else Inr (False, ''Failed: ''
                       @ (if stderr result \<noteq> [] then stderr result else stdout result)))
      | Inl TimeoutExpired \<Rightarrow> Inr (False, ''Timeout: Model took too long to run'')
      | Inl (Exception e) \<Rightarrow> Inr (False, ''Error: '' @ e)
      | Inl (BaseException e) \<Rightarrow> Inl (BaseException e),
      w\<lparr>trace := trace w @ run_events w (kalixcli_call p m)\<rparr>)"
  using assms
  by (simp add: verify_model_def mbal_path_of_def kalixcli_call_def subprocess_run_def Let_def
      run_events_def emit_def split: sum.splits py_exception.splits)

lemma verify_model_sim_run:
  assumes "os_path_exists w (mbal_path_of p m)"
  shows "verify_model_sim p m w =
     (case engine w (kalix_call p m) of
        Inr result \<Rightarrow>
          (if returncode result = 0 then
             if str_contains (stdout result) ''VERIFIED!'' then Inr (True, ''VERIFIED!'')
             else Inr (False, ''Verification unclear: '' @ stdout result)
           else Inr (False, ''Failed: ''
                       @ (if stderr result \<noteq> [] then stderr result else stdout result)))
      | Inl TimeoutExpired \<Rightarrow> Inr (False, ''Timeout: Model took too long to run'')
      | Inl (Exception e) \<Rightarrow> Inr (False, ''Error: '' @ e)
      | Inl (BaseException e) \<Rightarrow> Inl (BaseException e),
      w\<lparr>trace := trace w @ run_events w (kalix_call p m)\<rparr>)"
  using assms
  by (simp add: verify_model_sim_def mbal_path_of_def kalix_call_def subprocess_run_def Let_def
      run_events_def emit_def split: sum.splits py_exception.splits)

lemma verify_model_missing:
  assumes "\<not> os_path_exists w (mbal_path_of p m)"
  shows "verify_model p m w
           = (Inr (False, ''Mass balance file not found: '' @ mbal_path_of p m), w)"
    and "verify_model_sim p m w
           = (Inr (False, ''Mass balance file not found: '' @ mbal_path_of p m), w)"
  using assms by (simp_all add: verify_model_def verify_model_sim_def mbal_path_of_def Let_def)

subsection \<open>\<open>find_model_files\<close>\<close>

lemma ini_paths_simps [simp]:
  "ini_paths [] = []"
  "ini_paths ((r, ds, ns) # ts) = map (os_path_join r) (filter (\<lambda>file. endswith file ''.ini'') ns) @ ini_paths ts"
  "ini_paths (xs @ ys) = ini_paths xs @ ini_paths ys"
  by (simp_all add: ini_paths_def)

lemma ini_paths_concat: "ini_paths (concat xss) = concat (map ini_paths xss)"
  by (induction xss) simp_all

lemma spec_paths_simps [simp]:
  "spec_paths [] = []"
  "spec_paths (xs @ ys) = spec_paths xs @ spec_paths ys"
  by (simp_all add: spec_paths_def)

lemma spec_paths_concat: "spec_paths (concat xss) = concat (map spec_paths xss)"
  by (induction xss) simp_all

lemma mset_concat_filter_split:
  "mset (concat (map f (filter P es))) + mset (concat (map g (filter (\<lambda>e. \<not> P e) es)))
     = mset (concat (map (\<lambda>e. if P e then f e else g e) es))"
  by (induction es) simp_all

lemma walk_files_below:
  "mset (ini_paths (walk d n)) = mset (spec_paths (files_below d n))"
proof (induction d n rule: walk.induct)
  case (1 tp c)
  then show ?case by simp
next
  case (2 tp es)
  have a: "map (os_path_join tp) (filter (\<lambda>file. endswith file ''.ini'') (map fst (filter (\<lambda>e. \<not> is_dir (snd e)) es)))
      = concat (map (\<lambda>e. spec_paths [(fst e, os_path_join tp (fst e))]) (filter (\<lambda>e. \<not> is_dir (snd e)) es))"
    by (induction es) (simp_all add: spec_paths_def)
  have b: "mset (concat (map (\<lambda>e. ini_paths (walk (os_path_join tp (fst e)) (snd e))) (filter (\<lambda>e. is_dir (snd e)) es)))
      = mset (concat (map (\<lambda>e. spec_paths (files_below (os_path_join tp (fst e)) (snd e))) (filter (\<lambda>e. is_dir (snd e)) es)))"
  proof -
    have ih: "mset (ini_paths (walk (os_path_join tp (fst e)) (snd e)))
        = mset (spec_paths (files_below (os_path_join tp (fst e)) (snd e)))"
      if "e \<in> set es" "is_dir (snd e)" for e
      using "2.IH" [OF refl refl, of e] that by simp
    have "sum_list (map (\<lambda>e. mset (ini_paths (walk (os_path_join tp (fst e)) (snd e))))
              (filter (\<lambda>e. is_dir (snd e)) es))
        = sum_list (map (\<lambda>e. mset (spec_paths (files_below (os_path_join tp (fst e)) (snd e))))
              (filter (\<lambda>e. is_dir (snd e)) es))"
      by (rule arg_cong [where f = sum_list], rule map_cong) (simp_all add: ih)
    then show ?thesis
      by (simp add: mset_concat comp_def)
  qed
  show ?case
    apply (simp add: Let_def ini_paths_concat spec_paths_concat comp_def a)
    apply (subst add.commute)
    apply (simp only: b)
    apply (subst mset_concat_filter_split)
    apply (rule arg_cong [where f = mset])
    apply (rule arg_cong [where f = concat])
    apply (rule map_cong)
     apply simp_all
    done
qed

lemma same_files_is_dir: "same_files t t' \<Longrightarrow> is_dir t = is_dir t'"
  by (induction rule: same_files.induct) simp_all

lemma mset_concat_map_perm:
  assumes "mset xs = mset ys"
  shows "mset (concat (map f xs)) = mset (concat (map f ys))"
proof -
  have "mset (concat (map f zs)) = sum_mset (image_mset (\<lambda>z. mset (f z)) (mset zs))" for zs
    by (induction zs) simp_all
  with assms show ?thesis by simp
qed

lemma mset_concat_map_all2:
  assumes "list_all2 (\<lambda>x y. mset (f x) = mset (g y)) xs ys"
  shows "mset (concat (map f xs)) = mset (concat (map g ys))"
  using assms by (induction rule: list_all2_induct) simp_all

lemma same_files_below:
  "same_files t t' \<Longrightarrow> mset (files_below d t) = mset (files_below d t')"
proof (induction arbitrary: d rule: same_files.induct)
  case (files c c')
  then show ?case by simp
next
  case (dirs es es'' es')
  let ?f = "\<lambda>e. if is_dir (snd e) then files_below (os_path_join d (fst e)) (snd e)
                 else [(fst e, os_path_join d (fst e))]"
  from dirs.IH have "list_all2 (\<lambda>e e'. mset (?f e) = mset (?f e')) es es''"
    by (rule list_all2_mono) (auto dest: same_files_is_dir)
  then have "mset (concat (map ?f es)) = mset (concat (map ?f es''))"
    by (rule mset_concat_map_all2)
  also have "\<dots> = mset (concat (map ?f es'))"
    using dirs.hyps by (rule mset_concat_map_perm)
  finally show ?case by simp
qed

lemma mset_spec_paths: "mset xs = mset ys \<Longrightarrow> mset (spec_paths xs) = mset (spec_paths ys)"
  by (simp add: spec_paths_def)

lemma find_model_files_ini_paths:
  "find_model_files w root_dir = sort (ini_paths (os_walk w root_dir))"
  by (simp add: find_model_files_def ini_paths_def)

lemma sort_cong_mset: "mset xs = mset ys \<Longrightarrow> sort xs = sort (ys :: string list)"
  by (rule properties_for_sort) simp_all

lemma find_model_files_spec:
  "find_model_files w root_dir = sort (spec_paths (files_in w root_dir))"
  unfolding find_model_files_ini_paths
  by (rule sort_cong_mset) (simp add: os_walk_def files_in_def walk_files_below split: option.splits)

text \<open>
  Claim C5. \<open>find_model_files\<close> returns the paths of exactly the files of the tree below
  the root whose names end with \<open>.ini\<close>, sorted lexicographically; the result is the same
  for every tree that holds the same files, whatever the order in which the directories
  list their entries and whatever the files contain.
\<close>

theorem find_model_files_discovery:
  "find_model_files w root_dir
     = sort (map snd (filter (\<lambda>f. endswith (fst f) ''.ini'') (files_in w root_dir)))
   \<and> sorted (find_model_files w root_dir)
   \<and> mset (find_model_files w root_dir)
       = mset (map snd (filter (\<lambda>f. endswith (fst f) ''.ini'') (files_in w root_dir)))
   \<and> (\<forall>w' t t'. fs w root_dir = Some t \<and> fs w' root_dir = Some t' \<and> same_files t t'
         \<longrightarrow> find_model_files w' root_dir = find_model_files w root_dir)"
proof -
  have spec: "find_model_files v root_dir
     = sort (map snd (filter (\<lambda>f. endswith (fst f) ''.ini'') (files_in v root_dir)))" for v
    using find_model_files_spec [of v root_dir] by (simp add: spec_paths_def)
  have inv: "find_model_files w' root_dir = find_model_files w root_dir"
    if "fs w root_dir = Some t" "fs w' root_dir = Some t'" "same_files t t'" for w' t t'
  proof -
    have "mset (files_in w' root_dir) = mset (files_in w root_dir)"
      using that same_files_below [of t t' root_dir] by (simp add: files_in_def)
    then have "mset (spec_paths (files_in w' root_dir)) = mset (spec_paths (files_in w root_dir))"
      by (rule mset_spec_paths)
    then show ?thesis
      unfolding find_model_files_spec by (rule sort_cong_mset)
  qed
  have srt: "sorted (find_model_files w root_dir)"
    by (simp add: find_model_files_def)
  have ms: "mset (find_model_files w root_dir)
       = mset (map snd (filter (\<lambda>f. endswith (fst f) ''.ini'') (files_in w root_dir)))"
    by (subst spec) (simp only: mset_sort)
  from spec [of w] srt ms inv show ?thesis
    by blast
qed

subsection \<open>The loop over the models\<close>

lemma runs_append [simp]: "runs (xs @ ys) = runs xs @ runs ys"
  by (induction xs rule: runs.induct) simp_all

lemma printed_append [simp]: "printed (xs @ ys) = printed xs @ printed ys"
  by (induction xs rule: printed.induct) simp_all

lemma file_events_append [simp]: "file_events (xs @ ys) = file_events xs @ file_events ys"
  by (induction xs rule: file_events.induct) simp_all

lemma run_events_simps [simp]:
  "runs (run_events w c) = [c]"
  "printed (run_events w c) = []"
  "file_events (run_events w c) = []"
  "run_events (w\<lparr>trace := t\<rparr>) c = run_events w c"
  by (simp_all add: run_events_def)

lemma os_path_exists_trace [simp]: "os_path_exists (w\<lparr>trace := t\<rparr>) p = os_path_exists w p"
  by (simp add: os_path_exists_def)

lemma verify_model_snd:
  "snd (verify_model p m w)
     = w\<lparr>trace := trace w @ (if os_path_exists w (mbal_path_of p m) then run_events w (kalixcli_call p m) else [])\<rparr>"
  by (cases "os_path_exists w (mbal_path_of p m)")
     (simp_all add: verify_model_run verify_model_missing emit_def)

lemma verify_model_fst_trace [simp]:
  "fst (verify_model p m (w\<lparr>trace := t\<rparr>)) = fst (verify_model p m w)"
  by (cases "os_path_exists w (mbal_path_of p m)")
     (simp_all add: verify_model_run verify_model_missing)

lemma find_model_files_trace [simp]:
  "find_model_files (w\<lparr>trace := t\<rparr>) root_dir = find_model_files w root_dir"
  by (simp add: find_model_files_def os_walk_def)

lemma result_of_trace [simp]: "result_of (w\<lparr>trace := t\<rparr>) root_dir = result_of w root_dir"
  by (rule ext) (simp add: result_of_def)

lemma verify_each_step:
  assumes "fst (verify_model p ''mbal_for_verification.txt'' w) = Inr (s, msg)"
  shows "verify_each root_dir (p # ps) acc w =
           verify_each root_dir ps (acc @ [(relpath w p root_dir, s, msg)])
             (w\<lparr>trace := trace w @ Printed (''Verifying: '' @ relpath w p root_dir)
                  # (if os_path_exists w (mbal_path_of p ''mbal_for_verification.txt'')
                     then run_events w (kalixcli_call p ''mbal_for_verification.txt'') else [])
                  @ [Printed (mark_line s msg), Printed []]\<rparr>)"
proof -
  let ?w1 = "print (''Verifying: '' @ relpath w p root_dir) w"
  have "verify_model p ''mbal_for_verification.txt'' ?w1
     = (Inr (s, msg), snd (verify_model p ''mbal_for_verification.txt'' ?w1))"
    using assms by (simp add: prod_eq_iff print_def emit_def)
  then show ?thesis
    by (simp add: Let_def verify_model_snd print_def emit_def mark_line_def)
qed

lemma verify_each_stop:
  assumes "fst (verify_model p ''mbal_for_verification.txt'' w) = Inl e"
  shows "verify_each root_dir (p # ps) acc w =
           (Inl e, w\<lparr>trace := trace w @ Printed (''Verifying: '' @ relpath w p root_dir)
                  # (if os_path_exists w (mbal_path_of p ''mbal_for_verification.txt'')
                     then run_events w (kalixcli_call p ''mbal_for_verification.txt'') else [])\<rparr>)"
proof -
  let ?w1 = "print (''Verifying: '' @ relpath w p root_dir) w"
  have "verify_model p ''mbal_for_verification.txt'' ?w1
     = (Inl e, snd (verify_model p ''mbal_for_verification.txt'' ?w1))"
    using assms by (simp add: prod_eq_iff print_def emit_def)
  then show ?thesis
    by (simp add: Let_def verify_model_snd print_def emit_def)
qed

lemma verify_each_ok:
  assumes "\<forall>p\<in>set files. \<exists>out. fst (verify_model p ''mbal_for_verification.txt'' w) = Inr out"
  shows "\<exists>evs. verify_each root_dir files acc w
                 = (Inr (acc @ map (result_of w root_dir) files), w\<lparr>trace := trace w @ evs\<rparr>)
             \<and> file_events evs = []
             \<and> runs evs = map (\<lambda>p. kalixcli_call p ''mbal_for_verification.txt'')
                   (filter (\<lambda>p. os_path_exists w (mbal_path_of p ''mbal_for_verification.txt'')) files)"
  using assms
proof (induction files arbitrary: acc w)
  case Nil
  have "w = w\<lparr>trace := trace w @ []\<rparr>" by simp
  then show ?case by (intro exI [of _ "[]"]) simp
next
  case (Cons p ps)
  let ?m = "''mbal_for_verification.txt''"
  from Cons.prems obtain s msg where out: "fst (verify_model p ?m w) = Inr (s, msg)"
    by fastforce
  let ?E = "Printed (''Verifying: '' @ relpath w p root_dir)
                  # (if os_path_exists w (mbal_path_of p ?m) then run_events w (kalixcli_call p ?m) else [])
                  @ [Printed (mark_line s msg), Printed []]"
  let ?w4 = "w\<lparr>trace := trace w @ ?E\<rparr>"
  have "\<forall>q\<in>set ps. \<exists>out. fst (verify_model q ?m ?w4) = Inr out"
    using Cons.prems by simp
  from Cons.IH [OF this, of "acc @ [(relpath w p root_dir, s, msg)]"]
  obtain evs where evs:
    "verify_each root_dir ps (acc @ [(relpath w p root_dir, s, msg)]) ?w4
       = (Inr ((acc @ [(relpath w p root_dir, s, msg)]) @ map (result_of ?w4 root_dir) ps),
          ?w4\<lparr>trace := trace ?w4 @ evs\<rparr>)"
    "file_events evs = []"
    "runs evs = map (\<lambda>p. kalixcli_call p ?m) (filter (\<lambda>p. os_path_exists ?w4 (mbal_path_of p ?m)) ps)"
    by blast
  have r: "result_of w root_dir p = (relpath w p root_dir, s, msg)"
    by (simp add: result_of_def out)
  show ?case
  proof (intro exI [of _ "?E @ evs"] conjI)
    show "verify_each root_dir (p # ps) acc w
        = (Inr (acc @ map (result_of w root_dir) (p # ps)), w\<lparr>trace := trace w @ ?E @ evs\<rparr>)"
      unfolding verify_each_step [OF out] evs(1) by (simp add: r)
    show "file_events (?E @ evs) = []"
      using evs(2) by simp
    show "runs (?E @ evs) = map (\<lambda>p. kalixcli_call p ?m)
                   (filter (\<lambda>p. os_path_exists w (mbal_path_of p ?m)) (p # ps))"
      using evs(3) by simp
  qed
qed

lemma verify_each_frame:
  "\<exists>r evs. verify_each root_dir files acc w = (r, w\<lparr>trace := trace w @ evs\<rparr>)
        \<and> file_events evs = []
        \<and> ((\<exists>p\<in>set files. \<exists>e. fst (verify_model p ''mbal_for_verification.txt'' w) = Inl e)
             \<longrightarrow> (\<exists>e. r = Inl e))"
proof (induction files arbitrary: acc w)
  case Nil
  have "w = w\<lparr>trace := trace w @ []\<rparr>" by simp
  then show ?case by (intro exI [of _ "Inr acc"] exI [of _ "[]"]) simp
next
  case (Cons p ps)
  let ?m = "''mbal_for_verification.txt''"
  show ?case
  proof (cases "fst (verify_model p ?m w)")
    case (Inl e)
    let ?E0 = "Printed (''Verifying: '' @ relpath w p root_dir)
                  # (if os_path_exists w (mbal_path_of p ?m) then run_events w (kalixcli_call p ?m) else [])"
    show ?thesis
    proof (intro exI [of _ "Inl e"] exI [of _ ?E0] conjI)
      show "verify_each root_dir (p # ps) acc w = (Inl e, w\<lparr>trace := trace w @ ?E0\<rparr>)"
        by (rule verify_each_stop [OF Inl])
      show "file_events ?E0 = []"
        by simp
      show "(\<exists>q\<in>set (p # ps). \<exists>e. fst (verify_model q ?m w) = Inl e) \<longrightarrow> (\<exists>e'. Inl e = Inl e')"
        by simp
    qed
  next
    case (Inr out)
    obtain s msg where out: "fst (verify_model p ?m w) = Inr (s, msg)"
      using Inr by (cases out) simp
    let ?E = "Printed (''Verifying: '' @ relpath w p root_dir)
                  # (if os_path_exists w (mbal_path_of p ?m) then run_events w (kalixcli_call p ?m) else [])
                  @ [Printed (mark_line s msg), Printed []]"
    let ?w4 = "w\<lparr>trace := trace w @ ?E\<rparr>"
    from Cons.IH [of "acc @ [(relpath w p root_dir, s, msg)]" ?w4]
    obtain r evs where evs:
      "verify_each root_dir ps (acc @ [(relpath w p root_dir, s, msg)]) ?w4
         = (r, ?w4\<lparr>trace := trace ?w4 @ evs\<rparr>)"
      "file_events evs = []"
      "(\<exists>q\<in>set ps. \<exists>e. fst (verify_model q ?m ?w4) = Inl e) \<longrightarrow> (\<exists>e. r = Inl e)"
      by blast
    show ?thesis
    proof (intro exI [of _ r] exI [of _ "?E @ evs"] conjI)
      show "verify_each root_dir (p # ps) acc w = (r, w\<lparr>trace := trace w @ ?E @ evs\<rparr>)"
        unfolding verify_each_step [OF out] evs(1) by simp
      show "file_events (?E @ evs) = []"
        using evs(2) by simp
      show "(\<exists>q\<in>set (p # ps). \<exists>e. fst (verify_model q ?m w) = Inl e) \<longrightarrow> (\<exists>e. r = Inl e)"
        using evs(3) out by simp
    qed
  qed
qed

subsection \<open>\<open>main\<close>, base variant\<close>

lemma print_failed_trace:
  "\<exists>ms. print_failed results w = w\<lparr>trace := trace w @ map Printed ms\<rparr>"
proof (induction results arbitrary: w)
  case Nil
  show ?case by (intro exI [of _ "[]"]) simp
next
  case (Cons r rs)
  obtain rel_path success message where r: "r = (rel_path, success, message)"
    by (cases r) auto
  show ?case
  proof (cases success)
    case True
    with Cons.IH [of w] r show ?thesis by simp
  next
    case False
    let ?w = "w\<lparr>trace := trace w @ map Printed [''  - '' @ rel_path, ''    '' @ message]\<rparr>"
    from Cons.IH [of ?w] obtain ms where "print_failed rs ?w = ?w\<lparr>trace := trace ?w @ map Printed ms\<rparr>"
      by blast
    then have "print_failed (r # rs) w
        = w\<lparr>trace := trace w @ map Printed ([''  - '' @ rel_path, ''    '' @ message] @ ms)\<rparr>"
      using False r by (simp add: print_def emit_def)
    then show ?thesis by blast
  qed
qed

lemma count_passed_less:
  "count_passed results < int (length results) \<longleftrightarrow> (\<exists>r\<in>set results. \<not> fst (snd r))"
proof -
  let ?P = "\<lambda>(rel_path :: string, success :: bool, message :: string). success"
  have P: "?P r = fst (snd r)" for r by (cases r) auto
  have "length (filter ?P results) < length results \<longleftrightarrow> (\<exists>r\<in>set results. \<not> ?P r)"
  proof (cases "\<forall>r\<in>set results. ?P r")
    case True
    then have "filter ?P results = results" by (simp only: filter_True)
    with True show ?thesis by simp
  next
    case False
    then obtain r where "r \<in> set results" "\<not> ?P r" by blast
    then show ?thesis using length_filter_less [of r results ?P] by blast
  qed
  then show ?thesis
    unfolding count_passed_def by (simp add: P)
qed

lemma main_no_files:
  assumes "find_model_files w (root_dir_of argv script_dir) = []"
  shows "main argv script_dir w
     = (Exit 1, w\<lparr>trace := trace w @ map Printed (header (root_dir_of argv script_dir)
                                                    @ [''No .ini files found!''])\<rparr>)"
  using assms by (simp add: main_def Let_def root_dir_of_def header_def print_def emit_def)

lemma main_unfold:
  assumes "find_model_files w (root_dir_of argv script_dir) \<noteq> []"
  shows "main argv script_dir w =
     (let root_dir = root_dir_of argv script_dir;
          model_files = find_model_files w root_dir;
          w3 = w\<lparr>trace := trace w @ map Printed (header root_dir
                  @ [''Found '' @ str_int (int (length model_files)) @ '' model file(s)'' @ newline])\<rparr>
      in case verify_each root_dir model_files [] w3 of
           (Inl e, w4) \<Rightarrow> (Uncaught e, w4)
         | (Inr results, w4) \<Rightarrow>
             (let w8 = w4\<lparr>trace := trace w4 @ map Printed ([rule80, ''SUMMARY'', rule80]
                                                             @ summary_lines results)\<rparr>
              in if count_passed results < int (length results)
                 then (Exit 1, print_failed results (print (newline @ ''Failed models:'') w8))
                 else (Exit 0, print (newline @ check_mark
                                      @ '' All models verified successfully!'') w8)))"
  using assms
  by (simp add: main_def Let_def root_dir_of_def header_def summary_lines_def print_def emit_def
      split: prod.splits sum.splits)

lemma main_completes:
  fixes argv script_dir w
  defines "root_dir \<equiv> root_dir_of argv script_dir"
  defines "model_files \<equiv> find_model_files w root_dir"
  defines "results \<equiv> map (result_of w root_dir) model_files"
  assumes ne: "model_files \<noteq> []"
    and ok: "\<forall>p\<in>set model_files. \<exists>out. fst (verify_model p ''mbal_for_verification.txt'' w) = Inr out"
  shows "\<exists>evs ms. main argv script_dir w
           = (Exit (if \<exists>r\<in>set results. \<not> fst (snd r) then 1 else 0),
              w\<lparr>trace := trace w
                   @ map Printed (header root_dir
                        @ [''Found '' @ str_int (int (length model_files)) @ '' model file(s)'' @ newline])
                   @ evs
                   @ map Printed ([rule80, ''SUMMARY'', rule80] @ summary_lines results @ ms)\<rparr>)
         \<and> file_events evs = []
         \<and> runs evs = map (\<lambda>p. kalixcli_call p ''mbal_for_verification.txt'')
                   (filter (\<lambda>p. os_path_exists w (mbal_path_of p ''mbal_for_verification.txt'')) model_files)"
proof -
  let ?m = "''mbal_for_verification.txt''"
  let ?H = "map Printed (header root_dir
                  @ [''Found '' @ str_int (int (length model_files)) @ '' model file(s)'' @ newline])"
  let ?w3 = "w\<lparr>trace := trace w @ ?H\<rparr>"
  have "\<forall>p\<in>set model_files. \<exists>out. fst (verify_model p ?m ?w3) = Inr out"
    using ok by simp
  from verify_each_ok [OF this, of root_dir "[]"]
  obtain evs where evs:
    "verify_each root_dir model_files [] ?w3 = (Inr results, ?w3\<lparr>trace := trace ?w3 @ evs\<rparr>)"
    "file_events evs = []"
    "runs evs = map (\<lambda>p. kalixcli_call p ?m) (filter (\<lambda>p. os_path_exists w (mbal_path_of p ?m)) model_files)"
    by (auto simp: results_def)
  let ?w8 = "w\<lparr>trace := trace w @ ?H @ evs @ map Printed ([rule80, ''SUMMARY'', rule80] @ summary_lines results)\<rparr>"
  show ?thesis
  proof (cases "\<exists>r\<in>set results. \<not> fst (snd r)")
    case True
    obtain ms where ms: "print_failed results (print (newline @ ''Failed models:'') ?w8)
        = (print (newline @ ''Failed models:'') ?w8)\<lparr>trace := trace (print (newline @ ''Failed models:'') ?w8) @ map Printed ms\<rparr>"
      using print_failed_trace by blast
    have "main argv script_dir w
           = (Exit 1,
              w\<lparr>trace := trace w @ ?H @ evs
                   @ map Printed ([rule80, ''SUMMARY'', rule80] @ summary_lines results
                                   @ ((newline @ ''Failed models:'') # ms))\<rparr>)"
      using ne True evs(1) ms
      by (simp add: main_unfold root_dir_def [symmetric] model_files_def [symmetric]
          count_passed_less print_def emit_def)
    with True evs(2,3) show ?thesis
      by (intro exI [of _ evs] exI [of _ "(newline @ ''Failed models:'') # ms"]) simp
  next
    case False
    have "main argv script_dir w
           = (Exit 0,
              w\<lparr>trace := trace w @ ?H @ evs
                   @ map Printed ([rule80, ''SUMMARY'', rule80] @ summary_lines results
                                   @ [newline @ check_mark @ '' All models verified successfully!''])\<rparr>)"
      using ne False evs(1)
      by (simp add: main_unfold root_dir_def [symmetric] model_files_def [symmetric]
          count_passed_less print_def emit_def)
    with False evs(2,3) show ?thesis
      by (intro exI [of _ evs]
            exI [of _ "[newline @ check_mark @ '' All models verified successfully!'']"]) simp
  qed
qed

lemma main_interrupted:
  fixes argv script_dir w
  defines "root_dir \<equiv> root_dir_of argv script_dir"
  defines "model_files \<equiv> find_model_files w root_dir"
  assumes ne: "model_files \<noteq> []"
    and bad: "\<exists>p\<in>set model_files. \<exists>e. fst (verify_model p ''mbal_for_verification.txt'' w) = Inl e"
  shows "\<exists>e. fst (main argv script_dir w) = Uncaught e"
proof -
  let ?m = "''mbal_for_verification.txt''"
  let ?H = "map Printed (header root_dir
                  @ [''Found '' @ str_int (int (length model_files)) @ '' model file(s)'' @ newline])"
  let ?w3 = "w\<lparr>trace := trace w @ ?H\<rparr>"
  from verify_each_frame [of root_dir model_files "[]" ?w3] bad
  obtain e w4 where "verify_each root_dir model_files [] ?w3 = (Inl e, w4)"
    by auto
  then show ?thesis
    using ne by (simp add: main_unfold root_dir_def [symmetric] model_files_def [symmetric])
qed

subsection \<open>The outcome of one model\<close>

lemma engine_example_world [simp]: "engine (example_world e) = e"
  by (simp add: example_world_def)

lemma trace_example_world [simp]: "trace (example_world e) = []"
  by (simp add: example_world_def)

text \<open>
  Claim C1. When the reference file of a model exists and the engine completes with exit
  status zero, \<open>verify_model\<close> returns success with the message \<open>VERIFIED!\<close> if the
  captured standard output contains the substring \<open>VERIFIED!\<close>; otherwise it returns a
  failure whose message contains the captured standard output. Both variants.
\<close>

theorem verify_model_sentinel:
  assumes "os_path_exists w (mbal_path_of p m)"
  shows "(engine w (kalixcli_call p m) = Inr r \<and> returncode r = 0 \<longrightarrow>
            (if has_substring (stdout r) ''VERIFIED!''
             then fst (verify_model p m w) = Inr (True, ''VERIFIED!'')
             else \<exists>msg. fst (verify_model p m w) = Inr (False, msg) \<and> has_substring msg (stdout r)))
       \<and> (engine w (kalix_call p m) = Inr r \<and> returncode r = 0 \<longrightarrow>
            (if has_substring (stdout r) ''VERIFIED!''
             then fst (verify_model_sim p m w) = Inr (True, ''VERIFIED!'')
             else \<exists>msg. fst (verify_model_sim p m w) = Inr (False, msg) \<and> has_substring msg (stdout r)))"
  using assms has_substring_suffix [of "''Verification unclear: ''" "stdout r"]
  by (simp add: verify_model_run verify_model_sim_run str_contains_iff)

theorem verify_model_sentinel_witness:
  "os_path_exists (example_world (exits 0 ''run ok: VERIFIED! (3 nodes)'' ''warn''))
     (mbal_path_of ''cases/b/model.ini'' ''mbal_for_verification.txt'')
   \<and> has_substring ''run ok: VERIFIED! (3 nodes)'' ''VERIFIED!''
   \<and> fst (verify_model ''cases/b/model.ini'' ''mbal_for_verification.txt''
            (example_world (exits 0 ''run ok: VERIFIED! (3 nodes)'' ''warn'')))
       = Inr (True, ''VERIFIED!'')
   \<and> \<not> has_substring ''run ok: VERIFIED'' ''VERIFIED!''
   \<and> (\<exists>msg. fst (verify_model_sim ''cases/b/model.ini'' ''mbal.txt''
                   (example_world (exits 0 ''run ok: VERIFIED'' [])))
              = Inr (False, msg) \<and> has_substring msg ''run ok: VERIFIED'')"
proof -
  let ?e1 = "exits 0 ''run ok: VERIFIED! (3 nodes)'' ''warn''"
  let ?e2 = "exits 0 ''run ok: VERIFIED'' []"
  have x1: "os_path_exists (example_world ?e1) (mbal_path_of ''cases/b/model.ini'' ''mbal_for_verification.txt'')"
    by (simp add: example_mbal_path example_exists)
  have x2: "os_path_exists (example_world ?e2) (mbal_path_of ''cases/b/model.ini'' ''mbal.txt'')"
    by (simp add: example_mbal_path example_exists)
  have s1: "has_substring ''run ok: VERIFIED! (3 nodes)'' ''VERIFIED!''"
    by (simp flip: str_contains_iff)
  have s2: "\<not> has_substring ''run ok: VERIFIED'' ''VERIFIED!''"
    by (simp flip: str_contains_iff)
  from verify_model_sentinel [OF x1, of "\<lparr>returncode = 0, stdout = ''run ok: VERIFIED! (3 nodes)'', stderr = ''warn''\<rparr>"]
    verify_model_sentinel [OF x2, of "\<lparr>returncode = 0, stdout = ''run ok: VERIFIED'', stderr = []\<rparr>"]
    x1 s1 s2
  show ?thesis
    by (simp add: exits_def)
qed

text \<open>
  Claim C2. When the reference file \<open>\<langle>directory of the model\<rangle>/\<langle>reference file name\<rangle>\<close> does not
  exist, \<open>verify_model\<close> returns a failure whose message contains that path, and the world
  is returned as it was: the engine has not been run. Both variants.
\<close>

theorem verify_model_missing_reference:
  assumes "\<not> os_path_exists w (mbal_path_of p m)"
  shows "(\<exists>msg. verify_model p m w = (Inr (False, msg), w) \<and> has_substring msg (mbal_path_of p m))
       \<and> runs (trace (snd (verify_model p m w))) = runs (trace w)
       \<and> (\<exists>msg. verify_model_sim p m w = (Inr (False, msg), w) \<and> has_substring msg (mbal_path_of p m))
       \<and> runs (trace (snd (verify_model_sim p m w))) = runs (trace w)"
  using assms has_substring_suffix [of "''Mass balance file not found: ''" "mbal_path_of p m"]
  by (simp add: verify_model_missing)

theorem verify_model_missing_reference_witness:
  "\<not> os_path_exists (example_world (exits 0 ''VERIFIED!'' []))
        (mbal_path_of ''cases/a/model.ini'' ''mbal.txt'')
   \<and> verify_model_sim ''cases/a/model.ini'' ''mbal.txt'' (example_world (exits 0 ''VERIFIED!'' []))
       = (Inr (False, ''Mass balance file not found: cases/a/mbal.txt''),
          example_world (exits 0 ''VERIFIED!'' []))
   \<and> runs (trace (snd (verify_model ''cases/a/model.ini'' ''mbal.txt''
                          (example_world (exits 0 ''VERIFIED!'' []))))) = []"
proof -
  let ?w = "example_world (exits 0 ''VERIFIED!'' [])"
  have x: "\<not> os_path_exists ?w (mbal_path_of ''cases/a/model.ini'' ''mbal.txt'')"
    by (simp add: example_mbal_path example_exists)
  have m: "verify_model_sim ''cases/a/model.ini'' ''mbal.txt'' ?w
       = (Inr (False, ''Mass balance file not found: cases/a/mbal.txt''), ?w)"
    using x by (simp add: verify_model_missing example_mbal_path)
  from verify_model_missing_reference [OF x] x m show ?thesis
    by simp
qed

text \<open>
  Claim C6. Every engine run that \<open>verify_model\<close> starts has a timeout of exactly 300
  seconds. A child that has not completed when that time has passed is killed, right after
  it was started and before anything else happens, and \<open>verify_model\<close> returns a failure
  whose message reports the timeout (in the words of the code,
  \<open>Timeout: Model took too long to run\<close>). A child is killed in no other case. Both
  variants.
\<close>

theorem verify_model_timeout:
  assumes "os_path_exists w (mbal_path_of p m)"
  shows "(\<exists>c. c = kalixcli_call p m \<and> timeout c = 300
             \<and> runs (trace (snd (verify_model p m w))) = runs (trace w) @ [c]
             \<and> (engine w c = Inl TimeoutExpired
                  \<longrightarrow> trace (snd (verify_model p m w)) = trace w @ [Ran c, Killed c]
                    \<and> fst (verify_model p m w)
                        = Inr (False, ''Timeout: Model took too long to run''))
             \<and> (engine w c \<noteq> Inl TimeoutExpired
                  \<longrightarrow> trace (snd (verify_model p m w)) = trace w @ [Ran c]))
       \<and> (\<exists>c. c = kalix_call p m \<and> timeout c = 300
             \<and> runs (trace (snd (verify_model_sim p m w))) = runs (trace w) @ [c]
             \<and> (engine w c = Inl TimeoutExpired
                  \<longrightarrow> trace (snd (verify_model_sim p m w)) = trace w @ [Ran c, Killed c]
                    \<and> fst (verify_model_sim p m w)
                        = Inr (False, ''Timeout: Model took too long to run''))
             \<and> (engine w c \<noteq> Inl TimeoutExpired
                  \<longrightarrow> trace (snd (verify_model_sim p m w)) = trace w @ [Ran c]))"
proof -
  have "timeout (kalixcli_call p m) = 300" "timeout (kalix_call p m) = 300"
    by (simp_all add: kalixcli_call_def kalix_call_def)
  then show ?thesis
    using assms by (simp add: verify_model_run verify_model_sim_run run_events_def)
qed

theorem verify_model_timeout_witness:
  "os_path_exists (example_world (raises TimeoutExpired))
      (mbal_path_of ''cases/b/model.ini'' ''mbal.txt'')
   \<and> trace (snd (verify_model_sim ''cases/b/model.ini'' ''mbal.txt''
                    (example_world (raises TimeoutExpired))))
       = [Ran \<lparr>args = [''kalix'', ''simulate'', ''model.ini'', ''-v'', ''mbal.txt''],
                cwd = ''cases/b'', timeout = 300\<rparr>,
          Killed \<lparr>args = [''kalix'', ''simulate'', ''model.ini'', ''-v'', ''mbal.txt''],
                   cwd = ''cases/b'', timeout = 300\<rparr>]
   \<and> fst (verify_model_sim ''cases/b/model.ini'' ''mbal.txt'' (example_world (raises TimeoutExpired)))
       = Inr (False, ''Timeout: Model took too long to run'')
   \<and> trace (snd (verify_model ''cases/b/model.ini'' ''mbal_for_verification.txt''
                    (example_world (exits 0 ''VERIFIED!'' []))))
       = [Ran \<lparr>args = [''kalixcli'', ''sim'', ''model.ini'', ''-v'', ''mbal_for_verification.txt''],
                cwd = ''cases/b'', timeout = 300\<rparr>]"
proof -
  let ?w = "example_world (raises TimeoutExpired)"
  let ?v = "example_world (exits 0 ''VERIFIED!'' [])"
  have x: "os_path_exists ?w (mbal_path_of ''cases/b/model.ini'' ''mbal.txt'')"
    by (simp add: example_mbal_path example_exists)
  have y: "os_path_exists ?v (mbal_path_of ''cases/b/model.ini'' ''mbal_for_verification.txt'')"
    by (simp add: example_mbal_path example_exists)
  have c: "kalix_call ''cases/b/model.ini'' ''mbal.txt''
      = \<lparr>args = [''kalix'', ''simulate'', ''model.ini'', ''-v'', ''mbal.txt''], cwd = ''cases/b'', timeout = 300\<rparr>"
    "kalixcli_call ''cases/b/model.ini'' ''mbal_for_verification.txt''
      = \<lparr>args = [''kalixcli'', ''sim'', ''model.ini'', ''-v'', ''mbal_for_verification.txt''],
         cwd = ''cases/b'', timeout = 300\<rparr>"
    by (simp_all add: kalix_call_def kalixcli_call_def path_defs)
  from verify_model_timeout [OF x] verify_model_timeout [OF y] x show ?thesis
    by (simp add: c raises_def exits_def)
qed

text \<open>
  Claim C7, as stated, makes the message the captured standard error itself (or the standard
  output). The harness puts \<open>Failed: \<close> in front of it: the claim fails on an engine that
  exits with status 1 and standard error \<open>boom\<close>.
\<close>

theorem verify_model_nonzero_exit_counterexample:
  "engine (example_world (exits 1 ''partial output'' ''boom''))
       (kalixcli_call ''cases/b/model.ini'' ''mbal_for_verification.txt'')
     = Inr \<lparr>returncode = 1, stdout = ''partial output'', stderr = ''boom''\<rparr>
   \<and> fst (verify_model ''cases/b/model.ini'' ''mbal_for_verification.txt''
            (example_world (exits 1 ''partial output'' ''boom'')))
       = Inr (False, ''Failed: boom'')
   \<and> fst (verify_model ''cases/b/model.ini'' ''mbal_for_verification.txt''
            (example_world (exits 1 ''partial output'' ''boom'')))
       \<noteq> Inr (False, ''boom'')"
  by (simp add: verify_model_run example_mbal_path example_exists exits_def)

text \<open>
  Claim C7, amended. When the engine completes with a non-zero exit status,
  \<open>verify_model\<close> returns a failure whose message is \<open>Failed: \<close> followed by the captured
  standard error if it is non-empty, otherwise by the captured standard output. Both
  variants.
\<close>

theorem verify_model_nonzero_exit:
  assumes "os_path_exists w (mbal_path_of p m)"
  shows "(engine w (kalixcli_call p m) = Inr r \<and> returncode r \<noteq> 0 \<longrightarrow>
            fst (verify_model p m w)
              = Inr (False, ''Failed: '' @ (if stderr r \<noteq> [] then stderr r else stdout r)))
       \<and> (engine w (kalix_call p m) = Inr r \<and> returncode r \<noteq> 0 \<longrightarrow>
            fst (verify_model_sim p m w)
              = Inr (False, ''Failed: '' @ (if stderr r \<noteq> [] then stderr r else stdout r)))"
  using assms by (simp add: verify_model_run verify_model_sim_run)

theorem verify_model_nonzero_exit_witness:
  "os_path_exists (example_world (exits 2 ''partial output'' []))
      (mbal_path_of ''cases/b/model.ini'' ''mbal.txt'')
   \<and> fst (verify_model_sim ''cases/b/model.ini'' ''mbal.txt''
            (example_world (exits 2 ''partial output'' [])))
       = Inr (False, ''Failed: partial output'')
   \<and> fst (verify_model ''cases/b/model.ini'' ''mbal_for_verification.txt''
            (example_world (exits 1 ''partial output'' ''boom'')))
       = Inr (False, ''Failed: boom'')"
proof -
  have x: "os_path_exists (example_world (exits 2 ''partial output'' []))
      (mbal_path_of ''cases/b/model.ini'' ''mbal.txt'')"
    by (simp add: example_mbal_path example_exists)
  have y: "os_path_exists (example_world (exits 1 ''partial output'' ''boom''))
      (mbal_path_of ''cases/b/model.ini'' ''mbal_for_verification.txt'')"
    by (simp add: example_mbal_path example_exists)
  from verify_model_nonzero_exit [OF x, of "\<lparr>returncode = 2, stdout = ''partial output'', stderr = []\<rparr>"]
    verify_model_nonzero_exit [OF y, of "\<lparr>returncode = 1, stdout = ''partial output'', stderr = ''boom''\<rparr>"]
    x
  show ?thesis
    by (simp add: exits_def)
qed

subsection \<open>The loop over the models, logging variant\<close>

lemma verify_model_sim_snd:
  "snd (verify_model_sim p m w)
     = w\<lparr>trace := trace w @ (if os_path_exists w (mbal_path_of p m) then run_events w (kalix_call p m) else [])\<rparr>"
  by (cases "os_path_exists w (mbal_path_of p m)")
     (simp_all add: verify_model_sim_run verify_model_missing emit_def)

lemma verify_model_sim_fst_trace [simp]:
  "fst (verify_model_sim p m (w\<lparr>trace := t\<rparr>)) = fst (verify_model_sim p m w)"
  by (cases "os_path_exists w (mbal_path_of p m)")
     (simp_all add: verify_model_sim_run verify_model_missing)

lemma result_of_sim_trace [simp]:
  "result_of_sim (w\<lparr>trace := t\<rparr>) root_dir = result_of_sim w root_dir"
  by (rule ext) (simp add: result_of_sim_def)

lemma log_pair: "log message (w, ls) = (w\<lparr>trace := trace w @ [Printed message]\<rparr>, ls @ [message])"
  by (simp add: log_def print_def emit_def)

lemma verify_each_sim_step:
  assumes "fst (verify_model_sim p ''mbal.txt'' w) = Inr (s, msg)"
  shows "verify_each_sim root_dir (p # ps) acc (w, ls) =
           verify_each_sim root_dir ps (acc @ [(relpath w p root_dir, s, msg)])
             (w\<lparr>trace := trace w @ Printed (''Verifying: '' @ relpath w p root_dir)
                  # (if os_path_exists w (mbal_path_of p ''mbal.txt'')
                     then run_events w (kalix_call p ''mbal.txt'') else [])
                  @ [Printed (mark_line s msg), Printed []]\<rparr>,
              ls @ [''Verifying: '' @ relpath w p root_dir, mark_line s msg, []])"
proof -
  let ?w1 = "w\<lparr>trace := trace w @ [Printed (''Verifying: '' @ relpath w p root_dir)]\<rparr>"
  have "verify_model_sim p ''mbal.txt'' ?w1
     = (Inr (s, msg), snd (verify_model_sim p ''mbal.txt'' ?w1))"
    using assms by (simp add: prod_eq_iff)
  then show ?thesis
    by (simp add: Let_def verify_model_sim_snd log_pair mark_line_def)
qed

lemma verify_each_sim_stop:
  assumes "fst (verify_model_sim p ''mbal.txt'' w) = Inl e"
  shows "verify_each_sim root_dir (p # ps) acc (w, ls) =
           (Inl e, w\<lparr>trace := trace w @ Printed (''Verifying: '' @ relpath w p root_dir)
                  # (if os_path_exists w (mbal_path_of p ''mbal.txt'')
                     then run_events w (kalix_call p ''mbal.txt'') else [])\<rparr>,
            ls @ [''Verifying: '' @ relpath w p root_dir])"
proof -
  let ?w1 = "w\<lparr>trace := trace w @ [Printed (''Verifying: '' @ relpath w p root_dir)]\<rparr>"
  have "verify_model_sim p ''mbal.txt'' ?w1
     = (Inl e, snd (verify_model_sim p ''mbal.txt'' ?w1))"
    using assms by (simp add: prod_eq_iff)
  then show ?thesis
    by (simp add: Let_def verify_model_sim_snd log_pair)
qed

lemma verify_each_sim_ok:
  assumes "\<forall>p\<in>set files. \<exists>out. fst (verify_model_sim p ''mbal.txt'' w) = Inr out"
  shows "\<exists>evs. verify_each_sim root_dir files acc (w, ls)
                 = (Inr (acc @ map (result_of_sim w root_dir) files),
                    w\<lparr>trace := trace w @ evs\<rparr>, ls @ printed evs)
             \<and> file_events evs = []
             \<and> runs evs = map (\<lambda>p. kalix_call p ''mbal.txt'')
                   (filter (\<lambda>p. os_path_exists w (mbal_path_of p ''mbal.txt'')) files)"
  using assms
proof (induction files arbitrary: acc w ls)
  case Nil
  show ?case by (intro exI [of _ "[]"]) simp
next
  case (Cons p ps)
  let ?m = "''mbal.txt''"
  from Cons.prems obtain s msg where out: "fst (verify_model_sim p ?m w) = Inr (s, msg)"
    by fastforce
  let ?E = "Printed (''Verifying: '' @ relpath w p root_dir)
                  # (if os_path_exists w (mbal_path_of p ?m) then run_events w (kalix_call p ?m) else [])
                  @ [Printed (mark_line s msg), Printed []]"
  let ?w4 = "w\<lparr>trace := trace w @ ?E\<rparr>"
  let ?ls4 = "ls @ [''Verifying: '' @ relpath w p root_dir, mark_line s msg, []]"
  have "\<forall>q\<in>set ps. \<exists>out. fst (verify_model_sim q ?m ?w4) = Inr out"
    using Cons.prems by simp
  from Cons.IH [OF this, of "acc @ [(relpath w p root_dir, s, msg)]" ?ls4]
  obtain evs where evs:
    "verify_each_sim root_dir ps (acc @ [(relpath w p root_dir, s, msg)]) (?w4, ?ls4)
       = (Inr ((acc @ [(relpath w p root_dir, s, msg)]) @ map (result_of_sim ?w4 root_dir) ps),
          ?w4\<lparr>trace := trace ?w4 @ evs\<rparr>, ?ls4 @ printed evs)"
    "file_events evs = []"
    "runs evs = map (\<lambda>p. kalix_call p ?m) (filter (\<lambda>p. os_path_exists ?w4 (mbal_path_of p ?m)) ps)"
    by blast
  have r: "result_of_sim w root_dir p = (relpath w p root_dir, s, msg)"
    by (simp add: result_of_sim_def out)
  show ?case
  proof (intro exI [of _ "?E @ evs"] conjI)
    show "verify_each_sim root_dir (p # ps) acc (w, ls)
        = (Inr (acc @ map (result_of_sim w root_dir) (p # ps)), w\<lparr>trace := trace w @ ?E @ evs\<rparr>,
           ls @ printed (?E @ evs))"
      unfolding verify_each_sim_step [OF out] evs(1) by (simp add: r)
    show "file_events (?E @ evs) = []"
      using evs(2) by simp
    show "runs (?E @ evs) = map (\<lambda>p. kalix_call p ?m)
                   (filter (\<lambda>p. os_path_exists w (mbal_path_of p ?m)) (p # ps))"
      using evs(3) by simp
  qed
qed

lemma verify_each_sim_frame:
  "\<exists>r evs. verify_each_sim root_dir files acc (w, ls)
              = (r, w\<lparr>trace := trace w @ evs\<rparr>, ls @ printed evs)
        \<and> file_events evs = []
        \<and> ((\<exists>p\<in>set files. \<exists>e. fst (verify_model_sim p ''mbal.txt'' w) = Inl e)
             \<longrightarrow> (\<exists>e. r = Inl e))"
proof (induction files arbitrary: acc w ls)
  case Nil
  show ?case by (intro exI [of _ "Inr acc"] exI [of _ "[]"]) simp
next
  case (Cons p ps)
  let ?m = "''mbal.txt''"
  show ?case
  proof (cases "fst (verify_model_sim p ?m w)")
    case (Inl e)
    let ?E0 = "Printed (''Verifying: '' @ relpath w p root_dir)
                  # (if os_path_exists w (mbal_path_of p ?m) then run_events w (kalix_call p ?m) else [])"
    show ?thesis
    proof (intro exI [of _ "Inl e"] exI [of _ ?E0] conjI)
      show "verify_each_sim root_dir (p # ps) acc (w, ls)
          = (Inl e, w\<lparr>trace := trace w @ ?E0\<rparr>, ls @ printed ?E0)"
        unfolding verify_each_sim_stop [OF Inl] by simp
      show "file_events ?E0 = []"
        by simp
      show "(\<exists>q\<in>set (p # ps). \<exists>e. fst (verify_model_sim q ?m w) = Inl e) \<longrightarrow> (\<exists>e'. Inl e = Inl e')"
        by simp
    qed
  next
    case (Inr out)
    obtain s msg where out: "fst (verify_model_sim p ?m w) = Inr (s, msg)"
      using Inr by (cases out) simp
    let ?E = "Printed (''Verifying: '' @ relpath w p root_dir)
                  # (if os_path_exists w (mbal_path_of p ?m) then run_events w (kalix_call p ?m) else [])
                  @ [Printed (mark_line s msg), Printed []]"
    let ?w4 = "w\<lparr>trace := trace w @ ?E\<rparr>"
    let ?ls4 = "ls @ [''Verifying: '' @ relpath w p root_dir, mark_line s msg, []]"
    from Cons.IH [of "acc @ [(relpath w p root_dir, s, msg)]" ?w4 ?ls4]
    obtain r evs where evs:
      "verify_each_sim root_dir ps (acc @ [(relpath w p root_dir, s, msg)]) (?w4, ?ls4)
         = (r, ?w4\<lparr>trace := trace ?w4 @ evs\<rparr>, ?ls4 @ printed evs)"
      "file_events evs = []"
      "(\<exists>q\<in>set ps. \<exists>e. fst (verify_model_sim q ?m ?w4) = Inl e) \<longrightarrow> (\<exists>e. r = Inl e)"
      by blast
    show ?thesis
    proof (intro exI [of _ r] exI [of _ "?E @ evs"] conjI)
      show "verify_each_sim root_dir (p # ps) acc (w, ls)
          = (r, w\<lparr>trace := trace w @ ?E @ evs\<rparr>, ls @ printed (?E @ evs))"
        unfolding verify_each_sim_step [OF out] evs(1) by simp
      show "file_events (?E @ evs) = []"
        using evs(2) by simp
      show "(\<exists>q\<in>set (p # ps). \<exists>e. fst (verify_model_sim q ?m w) = Inl e) \<longrightarrow> (\<exists>e. r = Inl e)"
        using evs(3) out by simp
    qed
  qed
qed

lemma log_failed_trace:
  "\<exists>ms. log_failed results (w, ls) = (w\<lparr>trace := trace w @ map Printed ms\<rparr>, ls @ ms)"
proof (induction results arbitrary: w ls)
  case Nil
  show ?case by (intro exI [of _ "[]"]) simp
next
  case (Cons r rs)
  obtain rel_path success message where r: "r = (rel_path, success, message)"
    by (cases r) auto
  show ?case
  proof (cases success)
    case True
    with Cons.IH [of w ls] r show ?thesis by simp
  next
    case False
    let ?w = "w\<lparr>trace := trace w @ map Printed [''  - '' @ rel_path, ''    '' @ message]\<rparr>"
    let ?ls = "ls @ [''  - '' @ rel_path, ''    '' @ message]"
    from Cons.IH [of ?w ?ls] obtain ms where
      "log_failed rs (?w, ?ls) = (?w\<lparr>trace := trace ?w @ map Printed ms\<rparr>, ?ls @ ms)"
      by blast
    then have "log_failed (r # rs) (w, ls)
        = (w\<lparr>trace := trace w @ map Printed ([''  - '' @ rel_path, ''    '' @ message] @ ms)\<rparr>,
           ls @ [''  - '' @ rel_path, ''    '' @ message] @ ms)"
      using False r by (simp add: log_pair)
    then show ?thesis by blast
  qed
qed

lemma printed_map_Printed [simp]: "printed (map Printed ms) = ms"
  by (induction ms) simp_all

lemma file_events_map_Printed [simp]: "file_events (map Printed ms) = []"
  by (induction ms) simp_all

lemma runs_map_Printed [simp]: "runs (map Printed ms) = []"
  by (induction ms) simp_all

subsection \<open>\<open>main\<close>, logging variant\<close>

lemma fs_trace [simp]: "fs (w\<lparr>trace := t\<rparr>) = fs w"
  by simp

lemma run_sim_no_files:
  assumes "find_model_files w (root_dir_of argv script_dir) = []"
  shows "run_sim argv script_dir lf (w, ls)
     = (Exit 1, w\<lparr>trace := trace w @ map Printed (header (root_dir_of argv script_dir)
                                                    @ [''No .ini files found!''])\<rparr>)"
  using assms by (simp add: run_sim_def Let_def root_dir_of_def header_def log_pair)

lemma run_sim_unfold:
  assumes "find_model_files w (root_dir_of argv script_dir) \<noteq> []"
  shows "run_sim argv script_dir lf (w, ls) =
     (let root_dir = root_dir_of argv script_dir;
          model_files = find_model_files w root_dir;
          H = header root_dir @ [found_line (length model_files)]
      in case verify_each_sim root_dir model_files [] (w\<lparr>trace := trace w @ map Printed H\<rparr>, ls @ H) of
           (Inl e, s4) \<Rightarrow> (Uncaught e, fst s4)
         | (Inr results, s4) \<Rightarrow>
             (let S = [rule80, ''SUMMARY'', rule80, ''Timestamp: '' @ now_isoformat (fst s4)]
                        @ summary_lines results;
                  s8 = ((fst s4)\<lparr>trace := trace (fst s4) @ map Printed S\<rparr>, snd s4 @ S);
                  failed = (count_passed results < int (length results));
                  s9 = (if failed then log_failed results (log (newline @ ''Failed models:'') s8)
                        else log (newline @ check_mark @ '' All models verified successfully!'') s8)
              in finish (if failed then 1 else 0)
                   (write_file lf (join_lines (snd s9) @ newline) (fst s9))))"
  using assms
  by (simp add: run_sim_def Let_def root_dir_of_def header_def found_line_def summary_lines_def
      log_pair finish_def split: prod.splits sum.splits option.splits)

lemma open_w_ok:
  assumes "\<forall>es. fs w p \<noteq> Some (Dir es)"
  shows "open_w p w = Inr (w\<lparr>fs := (fs w)(p \<mapsto> File []), trace := trace w @ [Opened p]\<rparr>)"
  using assms by (simp add: open_w_def emit_def split: option.splits node.splits)

lemma write_file_ok:
  assumes "\<forall>es. fs w p \<noteq> Some (Dir es)" and "write_fault w p content = None"
  shows "write_file p content w
     = (None, w\<lparr>fs := (fs w)(p \<mapsto> File content),
                trace := trace w @ [Opened p, Wrote p content]\<rparr>)"
  using assms(2) by (simp add: write_file_def open_w_ok [OF assms(1)] f_write_def emit_def)

lemma write_file_fault:
  assumes "\<forall>es. fs w p \<noteq> Some (Dir es)" and "write_fault w p content = Some (e, left)"
  shows "write_file p content w
     = (Some e, w\<lparr>fs := (fs w)(p \<mapsto> File left), trace := trace w @ [Opened p]\<rparr>)"
  using assms(2) by (simp add: write_file_def open_w_ok [OF assms(1)] f_write_def)

lemma write_file_printed:
  "printed (trace (snd (write_file p content w))) = printed (trace w)"
  by (simp add: write_file_def open_w_def f_write_def emit_def
      split: option.splits node.splits prod.splits)

lemma finish_simps [simp]:
  "snd (finish code r) = snd r"
  "fst (finish code r) = Exit c \<longleftrightarrow> fst r = None \<and> code = c"
  "fst (finish code r) = Uncaught e \<longleftrightarrow> fst r = Some e"
  by (cases r; cases "fst r"; simp add: finish_def)+

lemma run_sim_after_loop:
  assumes ne: "find_model_files w (root_dir_of argv script_dir) \<noteq> []"
    and loop: "verify_each_sim (root_dir_of argv script_dir)
                 (find_model_files w (root_dir_of argv script_dir)) []
                 (w\<lparr>trace := trace w @ map Printed H\<rparr>, ls @ H) = (Inr results, w4, l4)"
    and H: "H = header (root_dir_of argv script_dir)
                 @ [found_line (length (find_model_files w (root_dir_of argv script_dir)))]"
    and S: "S = [rule80, ''SUMMARY'', rule80, ''Timestamp: '' @ now_isoformat w4] @ summary_lines results"
    and rest: "(if count_passed results < int (length results)
                then log_failed results (log (newline @ ''Failed models:'')
                                           (w4\<lparr>trace := trace w4 @ map Printed S\<rparr>, l4 @ S))
                else log (newline @ check_mark @ '' All models verified successfully!'')
                       (w4\<lparr>trace := trace w4 @ map Printed S\<rparr>, l4 @ S)) = (w9, l9)"
  shows "run_sim argv script_dir lf (w, ls)
     = finish (if count_passed results < int (length results) then 1 else 0)
         (write_file lf (join_lines l9 @ newline) w9)"
proof -
  from loop have loop': "verify_each_sim (root_dir_of argv script_dir)
                 (find_model_files w (root_dir_of argv script_dir)) []
                 (w\<lparr>trace := trace w @ map Printed (header (root_dir_of argv script_dir)
                 @ [found_line (length (find_model_files w (root_dir_of argv script_dir)))])\<rparr>,
                  ls @ header (root_dir_of argv script_dir)
                 @ [found_line (length (find_model_files w (root_dir_of argv script_dir)))])
             = (Inr results, w4, l4)"
    unfolding H by simp
  from rest have rest': "(if count_passed results < int (length results)
                then log_failed results (log (newline @ ''Failed models:'')
                       (w4\<lparr>trace := trace w4 @ map Printed ([rule80, ''SUMMARY'', rule80,
                           ''Timestamp: '' @ now_isoformat w4] @ summary_lines results)\<rparr>,
                        l4 @ [rule80, ''SUMMARY'', rule80, ''Timestamp: '' @ now_isoformat w4]
                           @ summary_lines results))
                else log (newline @ check_mark @ '' All models verified successfully!'')
                       (w4\<lparr>trace := trace w4 @ map Printed ([rule80, ''SUMMARY'', rule80,
                           ''Timestamp: '' @ now_isoformat w4] @ summary_lines results)\<rparr>,
                        l4 @ [rule80, ''SUMMARY'', rule80, ''Timestamp: '' @ now_isoformat w4]
                           @ summary_lines results)) = (w9, l9)"
    unfolding S .
  show ?thesis
    unfolding run_sim_unfold [OF ne] Let_def loop' prod.case sum.case fst_conv snd_conv rest'
    by simp
qed

lemma run_sim_ends:
  fixes argv script_dir w
  defines "root_dir \<equiv> root_dir_of argv script_dir"
  defines "model_files \<equiv> find_model_files w root_dir"
  defines "results \<equiv> map (result_of_sim w root_dir) model_files"
  assumes ne: "model_files \<noteq> []"
    and ok: "\<forall>p\<in>set model_files. \<exists>out. fst (verify_model_sim p ''mbal.txt'' w) = Inr out"
  shows "\<exists>evs ms. run_sim argv script_dir lf (w, []) 
           = finish (if \<exists>r\<in>set results. \<not> fst (snd r) then 1 else 0)
               (write_file lf
                  (join_lines
                          (header root_dir @ [found_line (length model_files)] @ printed evs
                           @ [rule80, ''SUMMARY'', rule80, ''Timestamp: '' @ now_isoformat w]
                           @ summary_lines results @ ms) @ newline)
                  (w\<lparr>trace := trace w
                   @ map Printed (header root_dir @ [found_line (length model_files)])
                   @ evs
                   @ map Printed ([rule80, ''SUMMARY'', rule80, ''Timestamp: '' @ now_isoformat w]
                                  @ summary_lines results @ ms)\<rparr>))
         \<and> file_events evs = []
         \<and> runs evs = map (\<lambda>p. kalix_call p ''mbal.txt'')
                   (filter (\<lambda>p. os_path_exists w (mbal_path_of p ''mbal.txt'')) model_files)"
proof -
  let ?m = "''mbal.txt''"
  let ?H = "header root_dir @ [found_line (length model_files)]"
  let ?w3 = "w\<lparr>trace := trace w @ map Printed ?H\<rparr>"
  let ?S = "[rule80, ''SUMMARY'', rule80, ''Timestamp: '' @ now_isoformat w] @ summary_lines results"
  have "\<forall>p\<in>set model_files. \<exists>out. fst (verify_model_sim p ?m ?w3) = Inr out"
    using ok by simp
  from verify_each_sim_ok [OF this, of root_dir "[]" "[] @ ?H"]
  obtain evs where evs:
    "verify_each_sim root_dir model_files [] (?w3, ?H)
       = (Inr results, ?w3\<lparr>trace := trace ?w3 @ evs\<rparr>, ?H @ printed evs)"
    "file_events evs = []"
    "runs evs = map (\<lambda>p. kalix_call p ?m) (filter (\<lambda>p. os_path_exists w (mbal_path_of p ?m)) model_files)"
    by (auto simp: results_def)
  let ?w4 = "w\<lparr>trace := trace w @ map Printed ?H @ evs\<rparr>"
  let ?l4 = "?H @ printed evs"
  let ?w8 = "?w4\<lparr>trace := trace ?w4 @ map Printed ?S\<rparr>"
  let ?l8 = "?l4 @ ?S"
  let ?rest = "if count_passed results < int (length results)
              then log_failed results (log (newline @ ''Failed models:'') (?w8, ?l8))
              else log (newline @ check_mark @ '' All models verified successfully!'') (?w8, ?l8)"
  have "\<exists>ms. ?rest = (?w8\<lparr>trace := trace ?w8 @ map Printed ms\<rparr>, ?l8 @ ms)"
  proof (cases "count_passed results < int (length results)")
    case True
    let ?w = "?w8\<lparr>trace := trace ?w8 @ map Printed [newline @ ''Failed models:'']\<rparr>"
    let ?l = "?l8 @ [newline @ ''Failed models:'']"
    obtain ms where ms: "log_failed results (?w, ?l) = (?w\<lparr>trace := trace ?w @ map Printed ms\<rparr>, ?l @ ms)"
      using log_failed_trace by blast
    have "log (newline @ ''Failed models:'') (?w8, ?l8) = (?w, ?l)"
      by (simp add: log_pair)
    then have "?rest = (?w\<lparr>trace := trace ?w @ map Printed ms\<rparr>, ?l @ ms)"
      using True ms by (simp only: if_True)
    also have "\<dots> = (?w8\<lparr>trace := trace ?w8 @ map Printed ((newline @ ''Failed models:'') # ms)\<rparr>,
                      ?l8 @ ((newline @ ''Failed models:'') # ms))"
      by simp
    finally show ?thesis by blast
  next
    case False
    have "log (newline @ check_mark @ '' All models verified successfully!'') (?w8, ?l8)
        = (?w8\<lparr>trace := trace ?w8
               @ map Printed [newline @ check_mark @ '' All models verified successfully!'']\<rparr>,
           ?l8 @ [newline @ check_mark @ '' All models verified successfully!''])"
      by (simp add: log_pair)
    then have "?rest = (?w8\<lparr>trace := trace ?w8
               @ map Printed [newline @ check_mark @ '' All models verified successfully!'']\<rparr>,
           ?l8 @ [newline @ check_mark @ '' All models verified successfully!''])"
      using False by (simp only: if_False)
    then show ?thesis by blast
  qed
  then obtain ms where ms: "?rest = (?w8\<lparr>trace := trace ?w8 @ map Printed ms\<rparr>, ?l8 @ ms)"
    by blast
  let ?w9 = "?w8\<lparr>trace := trace ?w8 @ map Printed ms\<rparr>"
  have loop: "verify_each_sim (root_dir_of argv script_dir)
                 (find_model_files w (root_dir_of argv script_dir)) []
                 (w\<lparr>trace := trace w @ map Printed ?H\<rparr>, [] @ ?H) = (Inr results, ?w4, ?l4)"
    using evs(1) by (simp add: root_dir_def model_files_def)
  have S: "?S = [rule80, ''SUMMARY'', rule80, ''Timestamp: '' @ now_isoformat ?w4] @ summary_lines results"
    by simp
  have ne': "find_model_files w (root_dir_of argv script_dir) \<noteq> []"
    using ne by (simp add: root_dir_def model_files_def)
  have H: "?H = header (root_dir_of argv script_dir)
                 @ [found_line (length (find_model_files w (root_dir_of argv script_dir)))]"
    by (simp add: root_dir_def model_files_def)
  have "run_sim argv script_dir lf (w, [])
     = finish (if count_passed results < int (length results) then 1 else 0)
         (write_file lf (join_lines (?l8 @ ms) @ newline) ?w9)"
    by (rule run_sim_after_loop [OF ne' loop H S ms])
  then have "run_sim argv script_dir lf (w, [])
           = finish (if \<exists>r\<in>set results. \<not> fst (snd r) then 1 else 0)
               (write_file lf (join_lines (?H @ printed evs @ ?S @ ms) @ newline)
                  (w\<lparr>trace := trace w @ map Printed ?H @ evs @ map Printed (?S @ ms)\<rparr>))"
    by (simp add: count_passed_less)
  with evs(2,3) show ?thesis
    by (intro exI [of _ evs] exI [of _ ms]) simp
qed

lemma run_sim_interrupted:
  fixes argv script_dir w
  defines "root_dir \<equiv> root_dir_of argv script_dir"
  defines "model_files \<equiv> find_model_files w root_dir"
  assumes ne: "model_files \<noteq> []"
    and bad: "\<exists>p\<in>set model_files. \<exists>e. fst (verify_model_sim p ''mbal.txt'' w) = Inl e"
  shows "\<exists>e evs. run_sim argv script_dir lf (w, []) = (Uncaught e, w\<lparr>trace := trace w @ evs\<rparr>)
           \<and> file_events evs = []"
proof -
  let ?m = "''mbal.txt''"
  let ?H = "header root_dir @ [found_line (length model_files)]"
  let ?w3 = "w\<lparr>trace := trace w @ map Printed ?H\<rparr>"
  from verify_each_sim_frame [of root_dir model_files "[]" ?w3 "?H"] bad
  obtain e evs where evs: "verify_each_sim root_dir model_files [] (?w3, ?H)
       = (Inl e, ?w3\<lparr>trace := trace ?w3 @ evs\<rparr>, ?H @ printed evs)" "file_events evs = []"
    by auto
  have "run_sim argv script_dir lf (w, []) = (Uncaught e, w\<lparr>trace := trace w @ map Printed ?H @ evs\<rparr>)"
    using ne evs(1)
    by (simp add: run_sim_unfold [of w argv script_dir lf "[]"] root_dir_def [symmetric]
        model_files_def [symmetric] Let_def)
  with evs(2) show ?thesis
    by (intro exI [of _ e] exI [of _ "map Printed ?H @ evs"]) simp
qed

lemma main_sim_start:
  assumes "\<forall>es. fs w (log_path script_dir) \<noteq> Some (Dir es)"
  shows "main_sim argv script_dir w
     = run_sim argv script_dir (log_path script_dir)
         ((cleared script_dir w)\<lparr>trace := trace w @ removal script_dir w\<rparr>, [])"
proof (cases "fs w (log_path script_dir)")
  case None
  then have "(fs w)(log_path script_dir := None) = fs w" by auto
  then have "(cleared script_dir w)\<lparr>trace := trace w @ removal script_dir w\<rparr> = w"
    using None by (simp add: cleared_def removal_def os_path_exists_def)
  then show ?thesis
    using None by (simp add: main_sim_def Let_def log_path_def [symmetric] os_path_exists_def)
next
  case (Some n)
  with assms obtain c where "n = File c" by (cases n) auto
  with Some show ?thesis
    by (simp add: main_sim_def Let_def log_path_def [symmetric] os_path_exists_def os_remove_def
        emit_def cleared_def removal_def)
qed

lemma main_sim_dir:
  assumes "fs w (log_path script_dir) = Some (Dir es)"
  shows "\<exists>e. main_sim argv script_dir w = (Uncaught e, w)"
  using assms
  by (simp add: main_sim_def Let_def log_path_def [symmetric] os_path_exists_def os_remove_def)

lemma cleared_simps [simp]:
  "trace (cleared script_dir w) = trace w"
  "engine (cleared script_dir w) = engine w"
  "relpath (cleared script_dir w) = relpath w"
  "now_isoformat (cleared script_dir w) = now_isoformat w"
  "fs (cleared script_dir w) (log_path script_dir) = None"
  by (simp_all add: cleared_def)

lemma cleared_write:
  "(cleared script_dir w)\<lparr>fs := (fs (cleared script_dir w))(log_path script_dir \<mapsto> n), trace := t\<rparr>
     = w\<lparr>fs := (fs w)(log_path script_dir \<mapsto> n), trace := t\<rparr>"
  by (simp add: cleared_def)

lemma main_sim_no_files:
  assumes nd: "\<forall>es. fs w (log_path script_dir) \<noteq> Some (Dir es)"
    and e: "find_model_files (cleared script_dir w) (root_dir_of argv script_dir) = []"
  shows "main_sim argv script_dir w
     = (Exit 1, (cleared script_dir w)\<lparr>trace := trace w @ removal script_dir w
           @ map Printed (header (root_dir_of argv script_dir) @ [''No .ini files found!''])\<rparr>)"
proof -
  let ?w0 = "(cleared script_dir w)\<lparr>trace := trace w @ removal script_dir w\<rparr>"
  have "find_model_files ?w0 (root_dir_of argv script_dir) = []"
    using e by simp
  from run_sim_no_files [OF this, of "log_path script_dir" "[]"] show ?thesis
    unfolding main_sim_start [OF nd] by simp
qed

lemma main_sim_ends:
  fixes argv script_dir w
  defines "root_dir \<equiv> root_dir_of argv script_dir"
  defines "model_files \<equiv> find_model_files (cleared script_dir w) root_dir"
  defines "results \<equiv> map (result_of_sim (cleared script_dir w) root_dir) model_files"
  assumes nd: "\<forall>es. fs w (log_path script_dir) \<noteq> Some (Dir es)"
    and ne: "model_files \<noteq> []"
    and ok: "\<forall>p\<in>set model_files.
               \<exists>out. fst (verify_model_sim p ''mbal.txt'' (cleared script_dir w)) = Inr out"
  shows "\<exists>evs ms. main_sim argv script_dir w
           = finish (if \<exists>r\<in>set results. \<not> fst (snd r) then 1 else 0)
               (write_file (log_path script_dir)
                  (join_lines
                          (header root_dir @ [found_line (length model_files)] @ printed evs
                           @ [rule80, ''SUMMARY'', rule80, ''Timestamp: '' @ now_isoformat w]
                           @ summary_lines results @ ms) @ newline)
                  ((cleared script_dir w)\<lparr>trace := trace w @ removal script_dir w
                   @ map Printed (header root_dir @ [found_line (length model_files)])
                   @ evs
                   @ map Printed ([rule80, ''SUMMARY'', rule80, ''Timestamp: '' @ now_isoformat w]
                                  @ summary_lines results @ ms)\<rparr>))
         \<and> file_events evs = []
         \<and> runs evs = map (\<lambda>p. kalix_call p ''mbal.txt'')
              (filter (\<lambda>p. os_path_exists (cleared script_dir w) (mbal_path_of p ''mbal.txt''))
                 model_files)"
proof -
  let ?w0 = "(cleared script_dir w)\<lparr>trace := trace w @ removal script_dir w\<rparr>"
  have ne0: "find_model_files ?w0 (root_dir_of argv script_dir) \<noteq> []"
    using ne by (simp add: model_files_def root_dir_def)
  have ok0: "\<forall>p\<in>set (find_model_files ?w0 (root_dir_of argv script_dir)).
               \<exists>out. fst (verify_model_sim p ''mbal.txt'' ?w0) = Inr out"
    using ok by (simp add: model_files_def root_dir_def)
  from run_sim_ends [OF ne0 ok0]
  obtain evs ms where r:
    "run_sim argv script_dir (log_path script_dir) (?w0, []) 
           = finish (if \<exists>r\<in>set results. \<not> fst (snd r) then 1 else 0)
               (write_file (log_path script_dir)
                  (join_lines
                          (header root_dir @ [found_line (length model_files)] @ printed evs
                           @ [rule80, ''SUMMARY'', rule80, ''Timestamp: '' @ now_isoformat ?w0]
                           @ summary_lines results @ ms) @ newline)
                  (?w0\<lparr>trace := trace ?w0
                   @ map Printed (header root_dir @ [found_line (length model_files)])
                   @ evs
                   @ map Printed ([rule80, ''SUMMARY'', rule80, ''Timestamp: '' @ now_isoformat ?w0]
                                  @ summary_lines results @ ms)\<rparr>))"
    "file_events evs = []"
    "runs evs = map (\<lambda>p. kalix_call p ''mbal.txt'')
              (filter (\<lambda>p. os_path_exists ?w0 (mbal_path_of p ''mbal.txt''))
                 (find_model_files ?w0 (root_dir_of argv script_dir)))"
    unfolding results_def model_files_def root_dir_def
    by (simp only: find_model_files_trace result_of_sim_trace) blast
  show ?thesis
  proof (intro exI [of _ evs] exI [of _ ms] conjI)
    show "file_events evs = []" by (rule r(2))
    show "runs evs = map (\<lambda>p. kalix_call p ''mbal.txt'')
              (filter (\<lambda>p. os_path_exists (cleared script_dir w) (mbal_path_of p ''mbal.txt''))
                 model_files)"
      using r(3) by (simp add: model_files_def root_dir_def)
    show "main_sim argv script_dir w
           = finish (if \<exists>r\<in>set results. \<not> fst (snd r) then 1 else 0)
               (write_file (log_path script_dir)
                  (join_lines
                          (header root_dir @ [found_line (length model_files)] @ printed evs
                           @ [rule80, ''SUMMARY'', rule80, ''Timestamp: '' @ now_isoformat w]
                           @ summary_lines results @ ms) @ newline)
                  ((cleared script_dir w)\<lparr>trace := trace w @ removal script_dir w
                   @ map Printed (header root_dir @ [found_line (length model_files)])
                   @ evs
                   @ map Printed ([rule80, ''SUMMARY'', rule80, ''Timestamp: '' @ now_isoformat w]
                                  @ summary_lines results @ ms)\<rparr>))"
      unfolding main_sim_start [OF nd] r(1) by simp
  qed
qed

lemma main_sim_completes:
  fixes argv script_dir w
  defines "root_dir \<equiv> root_dir_of argv script_dir"
  defines "model_files \<equiv> find_model_files (cleared script_dir w) root_dir"
  defines "results \<equiv> map (result_of_sim (cleared script_dir w) root_dir) model_files"
  assumes nd: "\<forall>es. fs w (log_path script_dir) \<noteq> Some (Dir es)"
    and ne: "model_files \<noteq> []"
    and ok: "\<forall>p\<in>set model_files.
               \<exists>out. fst (verify_model_sim p ''mbal.txt'' (cleared script_dir w)) = Inr out"
    and wr: "\<forall>content. write_fault w (log_path script_dir) content = None"
  shows "\<exists>evs ms. main_sim argv script_dir w
           = (Exit (if \<exists>r\<in>set results. \<not> fst (snd r) then 1 else 0),
              w\<lparr>fs := (fs w)(log_path script_dir \<mapsto> File (join_lines
                          (header root_dir @ [found_line (length model_files)] @ printed evs
                           @ [rule80, ''SUMMARY'', rule80, ''Timestamp: '' @ now_isoformat w]
                           @ summary_lines results @ ms) @ newline)),
                trace := trace w @ removal script_dir w
                   @ map Printed (header root_dir @ [found_line (length model_files)])
                   @ evs
                   @ map Printed ([rule80, ''SUMMARY'', rule80, ''Timestamp: '' @ now_isoformat w]
                                  @ summary_lines results @ ms)
                   @ [Opened (log_path script_dir), Wrote (log_path script_dir) (join_lines
                          (header root_dir @ [found_line (length model_files)] @ printed evs
                           @ [rule80, ''SUMMARY'', rule80, ''Timestamp: '' @ now_isoformat w]
                           @ summary_lines results @ ms) @ newline)]\<rparr>)
         \<and> file_events evs = []
         \<and> runs evs = map (\<lambda>p. kalix_call p ''mbal.txt'')
              (filter (\<lambda>p. os_path_exists (cleared script_dir w) (mbal_path_of p ''mbal.txt''))
                 model_files)"
proof -
  from main_sim_ends [OF nd ne [unfolded model_files_def root_dir_def]
      ok [unfolded model_files_def root_dir_def]]
  obtain evs ms where r:
    "main_sim argv script_dir w
           = finish (if \<exists>r\<in>set results. \<not> fst (snd r) then 1 else 0)
               (write_file (log_path script_dir)
                  (join_lines
                          (header root_dir @ [found_line (length model_files)] @ printed evs
                           @ [rule80, ''SUMMARY'', rule80, ''Timestamp: '' @ now_isoformat w]
                           @ summary_lines results @ ms) @ newline)
                  ((cleared script_dir w)\<lparr>trace := trace w @ removal script_dir w
                   @ map Printed (header root_dir @ [found_line (length model_files)])
                   @ evs
                   @ map Printed ([rule80, ''SUMMARY'', rule80, ''Timestamp: '' @ now_isoformat w]
                                  @ summary_lines results @ ms)\<rparr>))"
    "file_events evs = []"
    "runs evs = map (\<lambda>p. kalix_call p ''mbal.txt'')
              (filter (\<lambda>p. os_path_exists (cleared script_dir w) (mbal_path_of p ''mbal.txt''))
                 model_files)"
    unfolding results_def model_files_def root_dir_def by blast
  let ?content = "join_lines
                          (header root_dir @ [found_line (length model_files)] @ printed evs
                           @ [rule80, ''SUMMARY'', rule80, ''Timestamp: '' @ now_isoformat w]
                           @ summary_lines results @ ms) @ newline"
  let ?w9 = "(cleared script_dir w)\<lparr>trace := trace w @ removal script_dir w
                   @ map Printed (header root_dir @ [found_line (length model_files)])
                   @ evs
                   @ map Printed ([rule80, ''SUMMARY'', rule80, ''Timestamp: '' @ now_isoformat w]
                                  @ summary_lines results @ ms)\<rparr>"
  have nd9: "\<forall>es. fs ?w9 (log_path script_dir) \<noteq> Some (Dir es)"
    by simp
  have wr9: "write_fault ?w9 (log_path script_dir) ?content = None"
    using wr by (simp add: cleared_def)
  show ?thesis
  proof (intro exI [of _ evs] exI [of _ ms] conjI)
    show "file_events evs = []" by (rule r(2))
    show "runs evs = map (\<lambda>p. kalix_call p ''mbal.txt'')
              (filter (\<lambda>p. os_path_exists (cleared script_dir w) (mbal_path_of p ''mbal.txt''))
                 model_files)"
      by (rule r(3))
    show "main_sim argv script_dir w
           = (Exit (if \<exists>r\<in>set results. \<not> fst (snd r) then 1 else 0),
              w\<lparr>fs := (fs w)(log_path script_dir \<mapsto> File ?content),
                trace := trace w @ removal script_dir w
                   @ map Printed (header root_dir @ [found_line (length model_files)])
                   @ evs
                   @ map Printed ([rule80, ''SUMMARY'', rule80, ''Timestamp: '' @ now_isoformat w]
                                  @ summary_lines results @ ms)
                   @ [Opened (log_path script_dir), Wrote (log_path script_dir) ?content]\<rparr>)"
      unfolding r(1) write_file_ok [OF nd9 wr9] by (simp add: finish_def cleared_def)
  qed
qed

lemma main_sim_interrupted:
  fixes argv script_dir w
  defines "root_dir \<equiv> root_dir_of argv script_dir"
  defines "model_files \<equiv> find_model_files (cleared script_dir w) root_dir"
  assumes nd: "\<forall>es. fs w (log_path script_dir) \<noteq> Some (Dir es)"
    and ne: "model_files \<noteq> []"
    and bad: "\<exists>p\<in>set model_files.
               \<exists>e. fst (verify_model_sim p ''mbal.txt'' (cleared script_dir w)) = Inl e"
  shows "\<exists>e evs. main_sim argv script_dir w
            = (Uncaught e, (cleared script_dir w)\<lparr>trace := trace w @ removal script_dir w @ evs\<rparr>)
           \<and> file_events evs = []"
proof -
  let ?w0 = "(cleared script_dir w)\<lparr>trace := trace w @ removal script_dir w\<rparr>"
  have ne0: "find_model_files ?w0 (root_dir_of argv script_dir) \<noteq> []"
    using ne by (simp add: model_files_def root_dir_def)
  have bad0: "\<exists>p\<in>set (find_model_files ?w0 (root_dir_of argv script_dir)).
               \<exists>e. fst (verify_model_sim p ''mbal.txt'' ?w0) = Inl e"
    using bad by (simp add: model_files_def root_dir_def)
  from run_sim_interrupted [OF ne0 bad0, of "log_path script_dir"]
  obtain e evs where "run_sim argv script_dir (log_path script_dir) (?w0, [])
       = (Uncaught e, ?w0\<lparr>trace := trace ?w0 @ evs\<rparr>)" "file_events evs = []"
    by blast
  then show ?thesis
    unfolding main_sim_start [OF nd] by (intro exI [of _ e] exI [of _ evs]) simp
qed

subsection \<open>Faults of the engine\<close>

lemma join_lines_newline:
  "ls \<noteq> [] \<Longrightarrow> join_lines ls @ newline = concat (map (\<lambda>l. l @ newline) ls)"
  by (induction ls rule: join_lines.induct) simp_all

lemma verify_model_returns:
  assumes "\<forall>c b. engine w c \<noteq> Inl (BaseException b)"
  shows "\<exists>out. fst (verify_model p m w) = Inr out"
    and "\<exists>out. fst (verify_model_sim p m w) = Inr out"
proof -
  have a: "\<And>b. engine w (kalixcli_call p m) \<noteq> Inl (BaseException b)"
    and b: "\<And>b. engine w (kalix_call p m) \<noteq> Inl (BaseException b)"
    using assms by blast+
  show "\<exists>out. fst (verify_model p m w) = Inr out"
    using a
    by (cases "os_path_exists w (mbal_path_of p m)")
       (auto simp add: verify_model_run verify_model_missing split: sum.splits py_exception.splits)
  show "\<exists>out. fst (verify_model_sim p m w) = Inr out"
    using b
    by (cases "os_path_exists w (mbal_path_of p m)")
       (auto simp add: verify_model_sim_run verify_model_missing split: sum.splits py_exception.splits)
qed

lemma verify_model_propagates:
  "fst (verify_model p m w) = Inl x \<Longrightarrow> \<exists>b. x = BaseException b"
  "fst (verify_model_sim p m w) = Inl x \<Longrightarrow> \<exists>b. x = BaseException b"
  by (cases "os_path_exists w (mbal_path_of p m)";
      auto simp add: verify_model_run verify_model_sim_run verify_model_missing
        split: sum.splits py_exception.splits if_splits)+

text \<open>
  Claim C8. A fault that \<open>subprocess.run\<close> raises while starting the engine or talking to it
  (an exception derived from \<open>Exception\<close>, such as the error of a missing executable) makes
  \<open>verify_model\<close> return a failure whose message contains the text of the fault. The only
  exceptions that leave \<open>verify_model\<close> are those not derived from \<open>Exception\<close>. Hence, when no
  engine run is interrupted by such an exception, the loop returns one result for every
  model and runs the engine for every model whose reference file exists, whatever faults
  occur. Both variants.
\<close>

theorem verify_model_catches_faults:
  "(os_path_exists w (mbal_path_of p m) \<and> engine w (kalixcli_call p m) = Inl (Exception e)
      \<longrightarrow> (\<exists>msg. fst (verify_model p m w) = Inr (False, msg) \<and> has_substring msg e))
   \<and> (os_path_exists w (mbal_path_of p m) \<and> engine w (kalix_call p m) = Inl (Exception e)
      \<longrightarrow> (\<exists>msg. fst (verify_model_sim p m w) = Inr (False, msg) \<and> has_substring msg e))
   \<and> (\<forall>x. fst (verify_model p m w) = Inl x \<or> fst (verify_model_sim p m w) = Inl x
          \<longrightarrow> (\<exists>b. x = BaseException b))
   \<and> ((\<forall>c b. engine w c \<noteq> Inl (BaseException b))
      \<longrightarrow> (\<exists>results evs.
             verify_each root_dir files [] w = (Inr results, w\<lparr>trace := trace w @ evs\<rparr>)
           \<and> length results = length files
           \<and> runs evs = map (\<lambda>p. kalixcli_call p ''mbal_for_verification.txt'')
                 (filter (\<lambda>p. os_path_exists w (mbal_path_of p ''mbal_for_verification.txt'')) files))
        \<and> (\<exists>results evs.
             verify_each_sim root_dir files [] (w, [])
               = (Inr results, w\<lparr>trace := trace w @ evs\<rparr>, printed evs)
           \<and> length results = length files
           \<and> runs evs = map (\<lambda>p. kalix_call p ''mbal.txt'')
                 (filter (\<lambda>p. os_path_exists w (mbal_path_of p ''mbal.txt'')) files)))"
proof (intro conjI impI allI)
  assume "os_path_exists w (mbal_path_of p m) \<and> engine w (kalixcli_call p m) = Inl (Exception e)"
  then show "\<exists>msg. fst (verify_model p m w) = Inr (False, msg) \<and> has_substring msg e"
    using has_substring_suffix [of "''Error: ''" e] by (simp add: verify_model_run)
next
  assume "os_path_exists w (mbal_path_of p m) \<and> engine w (kalix_call p m) = Inl (Exception e)"
  then show "\<exists>msg. fst (verify_model_sim p m w) = Inr (False, msg) \<and> has_substring msg e"
    using has_substring_suffix [of "''Error: ''" e] by (simp add: verify_model_sim_run)
next
  fix x
  assume "fst (verify_model p m w) = Inl x \<or> fst (verify_model_sim p m w) = Inl x"
  then show "\<exists>b. x = BaseException b"
    using verify_model_propagates by blast
next
  assume *: "\<forall>c b. engine w c \<noteq> Inl (BaseException b)"
  then have "\<forall>q\<in>set files. \<exists>out. fst (verify_model q ''mbal_for_verification.txt'' w) = Inr out"
    using verify_model_returns(1) by blast
  from verify_each_ok [OF this, of root_dir "[]"]
  show "\<exists>results evs.
             verify_each root_dir files [] w = (Inr results, w\<lparr>trace := trace w @ evs\<rparr>)
           \<and> length results = length files
           \<and> runs evs = map (\<lambda>p. kalixcli_call p ''mbal_for_verification.txt'')
                 (filter (\<lambda>p. os_path_exists w (mbal_path_of p ''mbal_for_verification.txt'')) files)"
    by fastforce
next
  assume *: "\<forall>c b. engine w c \<noteq> Inl (BaseException b)"
  then have "\<forall>q\<in>set files. \<exists>out. fst (verify_model_sim q ''mbal.txt'' w) = Inr out"
    using verify_model_returns(2) by blast
  from verify_each_sim_ok [OF this, of root_dir "[]" "[]"]
  show "\<exists>results evs.
             verify_each_sim root_dir files [] (w, [])
               = (Inr results, w\<lparr>trace := trace w @ evs\<rparr>, printed evs)
           \<and> length results = length files
           \<and> runs evs = map (\<lambda>p. kalix_call p ''mbal.txt'')
                 (filter (\<lambda>p. os_path_exists w (mbal_path_of p ''mbal.txt'')) files)"
    by fastforce
qed

subsection \<open>Exit status and summary\<close>

lemma walk_invalid: "find_model_files w root_dir = []"
  if "fs w root_dir = None \<or> (\<exists>c. fs w root_dir = Some (File c))"
  using that by (auto simp add: find_model_files_def os_walk_def)

lemma find_model_files_empty_dir:
  "fs w root_dir = Some (Dir []) \<Longrightarrow> find_model_files w root_dir = []"
  by (simp add: find_model_files_def os_walk_def)

text \<open>
  Claim C10. When the root path names nothing or names a file, \<open>find_model_files\<close> returns
  the empty list without raising, and \<open>main\<close> prints the no-files message and exits with
  status 1, exactly as it does for an empty directory.
\<close>

theorem invalid_root_is_no_files:
  assumes "fs w (root_dir_of argv script_dir) = None
           \<or> (\<exists>c. fs w (root_dir_of argv script_dir) = Some (File c))"
  shows "find_model_files w (root_dir_of argv script_dir) = []
       \<and> main argv script_dir w
           = (Exit 1, w\<lparr>trace := trace w @ map Printed (header (root_dir_of argv script_dir)
                                                          @ [''No .ini files found!''])\<rparr>)
       \<and> (\<forall>w'. fs w' (root_dir_of argv script_dir) = Some (Dir []) \<and> trace w' = trace w
             \<longrightarrow> fst (main argv script_dir w') = fst (main argv script_dir w)
               \<and> trace (snd (main argv script_dir w')) = trace (snd (main argv script_dir w)))"
proof -
  have e: "find_model_files w (root_dir_of argv script_dir) = []"
    using assms by (rule walk_invalid)
  have "fst (main argv script_dir w') = fst (main argv script_dir w)
      \<and> trace (snd (main argv script_dir w')) = trace (snd (main argv script_dir w))"
    if "fs w' (root_dir_of argv script_dir) = Some (Dir [])" "trace w' = trace w" for w'
    using that main_no_files [OF e] main_no_files [OF find_model_files_empty_dir [OF that(1)]]
    by simp
  with e main_no_files [OF e] show ?thesis
    by blast
qed

lemma main_exit0_iff:
  "fst (main argv script_dir w) = Exit 0 \<longleftrightarrow>
     find_model_files w (root_dir_of argv script_dir) \<noteq> []
     \<and> (\<forall>p\<in>set (find_model_files w (root_dir_of argv script_dir)).
           \<exists>msg. fst (verify_model p ''mbal_for_verification.txt'' w) = Inr (True, msg))"
  (is "?L \<longleftrightarrow> ?ne \<and> ?all")
proof -
  let ?files = "find_model_files w (root_dir_of argv script_dir)"
  let ?m = "''mbal_for_verification.txt''"
  let ?results = "map (result_of w (root_dir_of argv script_dir)) ?files"
  show ?thesis
  proof (cases "?files = []")
    case True
    then show ?thesis using main_no_files [OF True] by simp
  next
    case ne: False
    show ?thesis
    proof (cases "\<forall>p\<in>set ?files. \<exists>out. fst (verify_model p ?m w) = Inr out")
      case ok: True
      from main_completes [OF ne ok]
      have ex: "fst (main argv script_dir w) = Exit (if \<exists>r\<in>set ?results. \<not> fst (snd r) then 1 else 0)"
        by auto
      have "(\<exists>r\<in>set ?results. \<not> fst (snd r))
          \<longleftrightarrow> \<not> (\<forall>p\<in>set ?files. \<exists>msg. fst (verify_model p ?m w) = Inr (True, msg))"
      proof -
        have "fst (snd (result_of w (root_dir_of argv script_dir) p))
            \<longleftrightarrow> (\<exists>msg. fst (verify_model p ?m w) = Inr (True, msg))" if "p \<in> set ?files" for p
        proof -
          from ok that obtain s msg where "fst (verify_model p ?m w) = Inr (s, msg)" by fastforce
          then show ?thesis by (simp add: result_of_def)
        qed
        then show ?thesis by auto
      qed
      with ex ne show ?thesis by simp
    next
      case bad: False
      then have b: "\<exists>p\<in>set ?files. \<exists>e. fst (verify_model p ?m w) = Inl e"
        by (metis sum.exhaust)
      from main_interrupted [OF ne b] obtain e where "fst (main argv script_dir w) = Uncaught e"
        by blast
      moreover have "\<not> ?all" using bad by blast
      ultimately show ?thesis by simp
    qed
  qed
qed

lemma main_exit1_if_failed:
  assumes "\<forall>p\<in>set (find_model_files w (root_dir_of argv script_dir)).
             \<exists>out. fst (verify_model p ''mbal_for_verification.txt'' w) = Inr out"
    and "\<exists>p\<in>set (find_model_files w (root_dir_of argv script_dir)).
             \<exists>msg. fst (verify_model p ''mbal_for_verification.txt'' w) = Inr (False, msg)"
  shows "fst (main argv script_dir w) = Exit 1"
proof -
  let ?files = "find_model_files w (root_dir_of argv script_dir)"
  let ?results = "map (result_of w (root_dir_of argv script_dir)) ?files"
  from assms(2) have ne: "?files \<noteq> []" by auto
  from main_completes [OF ne assms(1)]
  have ex: "fst (main argv script_dir w) = Exit (if \<exists>r\<in>set ?results. \<not> fst (snd r) then 1 else 0)"
    by auto
  from assms(2) obtain p msg where p: "p \<in> set ?files"
    "fst (verify_model p ''mbal_for_verification.txt'' w) = Inr (False, msg)" by blast
  then have "\<not> fst (snd (result_of w (root_dir_of argv script_dir) p))"
    by (simp add: result_of_def)
  with p(1) have "\<exists>r\<in>set ?results. \<not> fst (snd r)" by auto
  with ex show ?thesis by simp
qed

lemma main_sim_exit0_only_if:
  assumes ex0: "fst (main_sim argv script_dir w) = Exit 0"
  shows "find_model_files (cleared script_dir w) (root_dir_of argv script_dir) \<noteq> []
     \<and> (\<forall>p\<in>set (find_model_files (cleared script_dir w) (root_dir_of argv script_dir)).
           \<exists>msg. fst (verify_model_sim p ''mbal.txt'' (cleared script_dir w)) = Inr (True, msg))"
proof -
  let ?v = "cleared script_dir w"
  let ?files = "find_model_files ?v (root_dir_of argv script_dir)"
  let ?m = "''mbal.txt''"
  let ?results = "map (result_of_sim ?v (root_dir_of argv script_dir)) ?files"
  have nd: "\<forall>es. fs w (log_path script_dir) \<noteq> Some (Dir es)"
  proof (intro allI notI)
    fix es assume "fs w (log_path script_dir) = Some (Dir es)"
    from main_sim_dir [OF this, of argv] ex0 show False by auto
  qed
  have ne: "?files \<noteq> []"
  proof
    assume "?files = []"
    from main_sim_no_files [OF nd this] ex0 show False by simp
  qed
  have ok: "\<forall>p\<in>set ?files. \<exists>out. fst (verify_model_sim p ?m ?v) = Inr out"
  proof (rule ccontr)
    assume "\<not> ?thesis"
    then have "\<exists>p\<in>set ?files. \<exists>e. fst (verify_model_sim p ?m ?v) = Inl e"
      by (metis sum.exhaust)
    from main_sim_interrupted [OF nd ne this] ex0 show False by auto
  qed
  from main_sim_ends [OF nd ne ok] obtain r where
    "main_sim argv script_dir w
       = finish (if \<exists>r\<in>set ?results. \<not> fst (snd r) then 1 else 0) r"
    by blast
  with ex0 have "(if \<exists>r\<in>set ?results. \<not> fst (snd r) then 1 else 0) = (0::int)"
    by simp
  then have none: "\<not> (\<exists>r\<in>set ?results. \<not> fst (snd r))"
    by (simp split: if_splits)
  have "\<exists>msg. fst (verify_model_sim p ?m ?v) = Inr (True, msg)" if "p \<in> set ?files" for p
  proof -
    from ok that obtain s msg where o: "fst (verify_model_sim p ?m ?v) = Inr (s, msg)" by fastforce
    from none that have "fst (snd (result_of_sim ?v (root_dir_of argv script_dir) p))" by simp
    with o show ?thesis by (simp add: result_of_sim_def)
  qed
  with ne show ?thesis by blast
qed

lemma main_sim_exit0_iff:
  assumes nd: "\<forall>es. fs w (log_path script_dir) \<noteq> Some (Dir es)"
    and wr: "\<forall>content. write_fault w (log_path script_dir) content = None"
  shows "fst (main_sim argv script_dir w) = Exit 0 \<longleftrightarrow>
     find_model_files (cleared script_dir w) (root_dir_of argv script_dir) \<noteq> []
     \<and> (\<forall>p\<in>set (find_model_files (cleared script_dir w) (root_dir_of argv script_dir)).
           \<exists>msg. fst (verify_model_sim p ''mbal.txt'' (cleared script_dir w)) = Inr (True, msg))"
  (is "?L \<longleftrightarrow> ?ne \<and> ?all")
proof -
  let ?v = "cleared script_dir w"
  let ?files = "find_model_files ?v (root_dir_of argv script_dir)"
  let ?m = "''mbal.txt''"
  let ?results = "map (result_of_sim ?v (root_dir_of argv script_dir)) ?files"
  show ?thesis
  proof (cases "?files = []")
    case True
    then show ?thesis using main_sim_no_files [OF nd True] by simp
  next
    case ne: False
    show ?thesis
    proof (cases "\<forall>p\<in>set ?files. \<exists>out. fst (verify_model_sim p ?m ?v) = Inr out")
      case ok: True
      from main_sim_completes [OF nd ne ok wr]
      have ex: "fst (main_sim argv script_dir w)
                  = Exit (if \<exists>r\<in>set ?results. \<not> fst (snd r) then 1 else 0)"
        by auto
      have "(\<exists>r\<in>set ?results. \<not> fst (snd r))
          \<longleftrightarrow> \<not> (\<forall>p\<in>set ?files. \<exists>msg. fst (verify_model_sim p ?m ?v) = Inr (True, msg))"
      proof -
        have "fst (snd (result_of_sim ?v (root_dir_of argv script_dir) p))
            \<longleftrightarrow> (\<exists>msg. fst (verify_model_sim p ?m ?v) = Inr (True, msg))" if "p \<in> set ?files" for p
        proof -
          from ok that obtain s msg where "fst (verify_model_sim p ?m ?v) = Inr (s, msg)" by fastforce
          then show ?thesis by (simp add: result_of_sim_def)
        qed
        then show ?thesis by auto
      qed
      with ex ne show ?thesis by simp
    next
      case bad: False
      then have b: "\<exists>p\<in>set ?files. \<exists>e. fst (verify_model_sim p ?m ?v) = Inl e"
        by (metis sum.exhaust)
      from main_sim_interrupted [OF nd ne b] obtain e where "fst (main_sim argv script_dir w) = Uncaught e"
        by auto
      moreover have "\<not> ?all" using bad by blast
      ultimately show ?thesis by simp
    qed
  qed
qed

lemma main_sim_exit1_if_failed:
  assumes nd: "\<forall>es. fs w (log_path script_dir) \<noteq> Some (Dir es)"
    and wr: "\<forall>content. write_fault w (log_path script_dir) content = None"
    and "\<forall>p\<in>set (find_model_files (cleared script_dir w) (root_dir_of argv script_dir)).
             \<exists>out. fst (verify_model_sim p ''mbal.txt'' (cleared script_dir w)) = Inr out"
    and "\<exists>p\<in>set (find_model_files (cleared script_dir w) (root_dir_of argv script_dir)).
             \<exists>msg. fst (verify_model_sim p ''mbal.txt'' (cleared script_dir w)) = Inr (False, msg)"
  shows "fst (main_sim argv script_dir w) = Exit 1"
proof -
  let ?v = "cleared script_dir w"
  let ?files = "find_model_files ?v (root_dir_of argv script_dir)"
  let ?results = "map (result_of_sim ?v (root_dir_of argv script_dir)) ?files"
  from assms(4) have ne: "?files \<noteq> []" by auto
  from main_sim_completes [OF nd ne assms(3) wr]
  have ex: "fst (main_sim argv script_dir w)
              = Exit (if \<exists>r\<in>set ?results. \<not> fst (snd r) then 1 else 0)"
    by auto
  from assms(4) obtain p msg where p: "p \<in> set ?files"
    "fst (verify_model_sim p ''mbal.txt'' ?v) = Inr (False, msg)" by blast
  then have "\<not> fst (snd (result_of_sim ?v (root_dir_of argv script_dir) p))"
    by (simp add: result_of_sim_def)
  with p(1) have "\<exists>r\<in>set ?results. \<not> fst (snd r)" by auto
  with ex show ?thesis by simp
qed

text \<open>
  Claim C4, amended. The base variant exits with status 0 exactly when at least one model
  file was found and the outcome of every model is a success; it exits with status 1 when
  no model file is found, and then prints only the two header lines and the no-files
  message; it exits with status 1 when every model returns an outcome and some outcome is a
  failure. The logging variant exits with status 0 only when at least one model file was
  found and the outcome of every model is a success. On a world whose log path does not
  name a directory it behaves as the base variant when no model file is found, and when
  moreover writing the log raises nothing it exits with status 0 exactly when, and with
  status 1 when, the base variant does. (What the logging variant does when writing the log
  raises is left out here.)
\<close>

theorem harness_exit_status:
  "(fst (main argv script_dir w) = Exit 0 \<longleftrightarrow>
      find_model_files w (root_dir_of argv script_dir) \<noteq> []
      \<and> (\<forall>p\<in>set (find_model_files w (root_dir_of argv script_dir)).
            \<exists>msg. fst (verify_model p ''mbal_for_verification.txt'' w) = Inr (True, msg)))
   \<and> (find_model_files w (root_dir_of argv script_dir) = []
        \<longrightarrow> main argv script_dir w
              = (Exit 1, w\<lparr>trace := trace w @ map Printed (header (root_dir_of argv script_dir)
                                                             @ [''No .ini files found!''])\<rparr>))
   \<and> ((\<forall>p\<in>set (find_model_files w (root_dir_of argv script_dir)).
             \<exists>out. fst (verify_model p ''mbal_for_verification.txt'' w) = Inr out)
       \<and> (\<exists>p\<in>set (find_model_files w (root_dir_of argv script_dir)).
             \<exists>msg. fst (verify_model p ''mbal_for_verification.txt'' w) = Inr (False, msg))
        \<longrightarrow> fst (main argv script_dir w) = Exit 1)
   \<and> (fst (main_sim argv script_dir w) = Exit 0 \<longrightarrow>
         find_model_files (cleared script_dir w) (root_dir_of argv script_dir) \<noteq> []
         \<and> (\<forall>p\<in>set (find_model_files (cleared script_dir w) (root_dir_of argv script_dir)).
               \<exists>msg. fst (verify_model_sim p ''mbal.txt'' (cleared script_dir w)) = Inr (True, msg)))
   \<and> ((\<forall>es. fs w (log_path script_dir) \<noteq> Some (Dir es)) \<longrightarrow>
        (find_model_files (cleared script_dir w) (root_dir_of argv script_dir) = []
           \<longrightarrow> main_sim argv script_dir w
                 = (Exit 1, (cleared script_dir w)\<lparr>trace := trace w @ removal script_dir w
                      @ map Printed (header (root_dir_of argv script_dir)
                                     @ [''No .ini files found!''])\<rparr>))
      \<and> ((\<forall>content. write_fault w (log_path script_dir) content = None) \<longrightarrow>
           (fst (main_sim argv script_dir w) = Exit 0 \<longleftrightarrow>
              find_model_files (cleared script_dir w) (root_dir_of argv script_dir) \<noteq> []
              \<and> (\<forall>p\<in>set (find_model_files (cleared script_dir w) (root_dir_of argv script_dir)).
                    \<exists>msg. fst (verify_model_sim p ''mbal.txt'' (cleared script_dir w))
                            = Inr (True, msg)))
         \<and> ((\<forall>p\<in>set (find_model_files (cleared script_dir w) (root_dir_of argv script_dir)).
                   \<exists>out. fst (verify_model_sim p ''mbal.txt'' (cleared script_dir w)) = Inr out)
             \<and> (\<exists>p\<in>set (find_model_files (cleared script_dir w) (root_dir_of argv script_dir)).
                   \<exists>msg. fst (verify_model_sim p ''mbal.txt'' (cleared script_dir w))
                           = Inr (False, msg))
              \<longrightarrow> fst (main_sim argv script_dir w) = Exit 1)))"
proof (intro conjI impI)
  show "fst (main argv script_dir w) = Exit 0 \<longleftrightarrow>
      find_model_files w (root_dir_of argv script_dir) \<noteq> []
      \<and> (\<forall>p\<in>set (find_model_files w (root_dir_of argv script_dir)).
            \<exists>msg. fst (verify_model p ''mbal_for_verification.txt'' w) = Inr (True, msg))"
    by (rule main_exit0_iff)
next
  assume "find_model_files w (root_dir_of argv script_dir) = []"
  then show "main argv script_dir w
              = (Exit 1, w\<lparr>trace := trace w @ map Printed (header (root_dir_of argv script_dir)
                                                             @ [''No .ini files found!''])\<rparr>)"
    by (rule main_no_files)
next
  assume "(\<forall>p\<in>set (find_model_files w (root_dir_of argv script_dir)).
             \<exists>out. fst (verify_model p ''mbal_for_verification.txt'' w) = Inr out)
       \<and> (\<exists>p\<in>set (find_model_files w (root_dir_of argv script_dir)).
             \<exists>msg. fst (verify_model p ''mbal_for_verification.txt'' w) = Inr (False, msg))"
  then show "fst (main argv script_dir w) = Exit 1"
    using main_exit1_if_failed [of w argv script_dir] by blast
next
  assume "fst (main_sim argv script_dir w) = Exit 0"
  from main_sim_exit0_only_if [OF this]
  show "find_model_files (cleared script_dir w) (root_dir_of argv script_dir) \<noteq> []"
    and "\<forall>p\<in>set (find_model_files (cleared script_dir w) (root_dir_of argv script_dir)).
               \<exists>msg. fst (verify_model_sim p ''mbal.txt'' (cleared script_dir w)) = Inr (True, msg)"
    by blast+
next
  assume nd: "\<forall>es. fs w (log_path script_dir) \<noteq> Some (Dir es)"
    and "find_model_files (cleared script_dir w) (root_dir_of argv script_dir) = []"
  then show "main_sim argv script_dir w
                 = (Exit 1, (cleared script_dir w)\<lparr>trace := trace w @ removal script_dir w
                      @ map Printed (header (root_dir_of argv script_dir)
                                     @ [''No .ini files found!''])\<rparr>)"
    by (rule main_sim_no_files)
next
  assume nd: "\<forall>es. fs w (log_path script_dir) \<noteq> Some (Dir es)"
    and wr: "\<forall>content. write_fault w (log_path script_dir) content = None"
  show "fst (main_sim argv script_dir w) = Exit 0 \<longleftrightarrow>
              find_model_files (cleared script_dir w) (root_dir_of argv script_dir) \<noteq> []
              \<and> (\<forall>p\<in>set (find_model_files (cleared script_dir w) (root_dir_of argv script_dir)).
                    \<exists>msg. fst (verify_model_sim p ''mbal.txt'' (cleared script_dir w))
                            = Inr (True, msg))"
    by (rule main_sim_exit0_iff [OF nd wr])
next
  assume nd: "\<forall>es. fs w (log_path script_dir) \<noteq> Some (Dir es)"
    and wr: "\<forall>content. write_fault w (log_path script_dir) content = None"
    and "(\<forall>p\<in>set (find_model_files (cleared script_dir w) (root_dir_of argv script_dir)).
                   \<exists>out. fst (verify_model_sim p ''mbal.txt'' (cleared script_dir w)) = Inr out)
             \<and> (\<exists>p\<in>set (find_model_files (cleared script_dir w) (root_dir_of argv script_dir)).
                   \<exists>msg. fst (verify_model_sim p ''mbal.txt'' (cleared script_dir w))
                           = Inr (False, msg))"
  then show "fst (main_sim argv script_dir w) = Exit 1"
    using main_sim_exit1_if_failed [of w script_dir argv] by blast
qed

text \<open>
  Claim C3. In a run that finds model files and ends by \<open>sys.exit\<close>, the results list has
  one entry for each model file found, in the order of discovery; the summary prints the
  number of model files as total, and the passed and failed counts it prints add up to
  that total. Both variants.
\<close>

theorem results_cover_models:
  "(find_model_files w (root_dir_of argv script_dir) \<noteq> [] \<and> fst (main argv script_dir w) = Exit c
      \<longrightarrow> (\<exists>results pre post.
             fst (verify_each (root_dir_of argv script_dir)
                    (find_model_files w (root_dir_of argv script_dir)) [] w) = Inr results
           \<and> length results = length (find_model_files w (root_dir_of argv script_dir))
           \<and> map fst results = map (\<lambda>p. relpath w p (root_dir_of argv script_dir))
                                   (find_model_files w (root_dir_of argv script_dir))
           \<and> printed (trace (snd (main argv script_dir w)))
               = pre @ [''Total: '' @ str_int (int (length (find_model_files w (root_dir_of argv script_dir)))),
                        ''Passed: '' @ str_int (count_passed results),
                        ''Failed: '' @ str_int (int (length results) - count_passed results)] @ post
           \<and> count_passed results + (int (length results) - count_passed results)
               = int (length (find_model_files w (root_dir_of argv script_dir)))))
   \<and> (find_model_files (cleared script_dir w) (root_dir_of argv script_dir) \<noteq> []
        \<and> fst (main_sim argv script_dir w) = Exit c
      \<longrightarrow> (\<exists>results pre post.
             fst (verify_each_sim (root_dir_of argv script_dir)
                    (find_model_files (cleared script_dir w) (root_dir_of argv script_dir)) []
                    (cleared script_dir w, [])) = Inr results
           \<and> length results = length (find_model_files (cleared script_dir w) (root_dir_of argv script_dir))
           \<and> map fst results = map (\<lambda>p. relpath w p (root_dir_of argv script_dir))
                                   (find_model_files (cleared script_dir w) (root_dir_of argv script_dir))
           \<and> printed (trace (snd (main_sim argv script_dir w)))
               = pre @ [''Total: '' @ str_int (int (length (find_model_files (cleared script_dir w)
                                                             (root_dir_of argv script_dir)))),
                        ''Passed: '' @ str_int (count_passed results),
                        ''Failed: '' @ str_int (int (length results) - count_passed results)] @ post
           \<and> count_passed results + (int (length results) - count_passed results)
               = int (length (find_model_files (cleared script_dir w) (root_dir_of argv script_dir)))))"
proof (intro conjI impI)
  let ?root = "root_dir_of argv script_dir"
  let ?files = "find_model_files w ?root"
  let ?m = "''mbal_for_verification.txt''"
  let ?results = "map (result_of w ?root) ?files"
  assume a: "?files \<noteq> [] \<and> fst (main argv script_dir w) = Exit c"
  then have ne: "?files \<noteq> []" by simp
  have ok: "\<forall>p\<in>set ?files. \<exists>out. fst (verify_model p ?m w) = Inr out"
  proof (rule ccontr)
    assume "\<not> ?thesis"
    then have "\<exists>p\<in>set ?files. \<exists>e. fst (verify_model p ?m w) = Inl e"
      by (metis sum.exhaust)
    from main_interrupted [OF ne this] a show False by auto
  qed
  from verify_each_ok [OF ok, of ?root "[]"]
  have loop: "fst (verify_each ?root ?files [] w) = Inr ?results"
    by auto
  from main_completes [OF ne ok] obtain evs ms where
    "main argv script_dir w
       = (Exit (if \<exists>r\<in>set ?results. \<not> fst (snd r) then 1 else 0),
          w\<lparr>trace := trace w
                   @ map Printed (header ?root
                        @ [''Found '' @ str_int (int (length ?files)) @ '' model file(s)'' @ newline])
                   @ evs
                   @ map Printed ([rule80, ''SUMMARY'', rule80] @ summary_lines ?results @ ms)\<rparr>)"
    by blast
  then have pr: "printed (trace (snd (main argv script_dir w)))
      = (printed (trace w) @ header ?root
           @ [''Found '' @ str_int (int (length ?files)) @ '' model file(s)'' @ newline]
           @ printed evs @ [rule80, ''SUMMARY'', rule80])
        @ summary_lines ?results @ ms"
    by simp
  show "\<exists>results pre post.
             fst (verify_each ?root ?files [] w) = Inr results
           \<and> length results = length ?files
           \<and> map fst results = map (\<lambda>p. relpath w p ?root) ?files
           \<and> printed (trace (snd (main argv script_dir w)))
               = pre @ [''Total: '' @ str_int (int (length ?files)),
                        ''Passed: '' @ str_int (count_passed results),
                        ''Failed: '' @ str_int (int (length results) - count_passed results)] @ post
           \<and> count_passed results + (int (length results) - count_passed results)
               = int (length ?files)"
    using loop pr
    by (intro exI [of _ ?results] exI [of _ ms]
          exI [of _ "printed (trace w) @ header ?root
           @ [''Found '' @ str_int (int (length ?files)) @ '' model file(s)'' @ newline]
           @ printed evs @ [rule80, ''SUMMARY'', rule80]"])
       (simp add: summary_lines_def result_of_def comp_def)
next
  let ?root = "root_dir_of argv script_dir"
  let ?v = "cleared script_dir w"
  let ?files = "find_model_files ?v ?root"
  let ?m = "''mbal.txt''"
  let ?results = "map (result_of_sim ?v ?root) ?files"
  assume a: "?files \<noteq> [] \<and> fst (main_sim argv script_dir w) = Exit c"
  then have ne: "?files \<noteq> []" by simp
  have nd: "\<forall>es. fs w (log_path script_dir) \<noteq> Some (Dir es)"
  proof (intro allI notI)
    fix es assume "fs w (log_path script_dir) = Some (Dir es)"
    from main_sim_dir [OF this, of argv] a show False by auto
  qed
  have ok: "\<forall>p\<in>set ?files. \<exists>out. fst (verify_model_sim p ?m ?v) = Inr out"
  proof (rule ccontr)
    assume "\<not> ?thesis"
    then have "\<exists>p\<in>set ?files. \<exists>e. fst (verify_model_sim p ?m ?v) = Inl e"
      by (metis sum.exhaust)
    from main_sim_interrupted [OF nd ne this] a show False by auto
  qed
  from verify_each_sim_ok [OF ok, of ?root "[]" "[]"]
  have loop: "fst (verify_each_sim ?root ?files [] (?v, [])) = Inr ?results"
    by auto
  from main_sim_ends [OF nd ne ok] obtain evs ms content where
    "main_sim argv script_dir w
       = finish (if \<exists>r\<in>set ?results. \<not> fst (snd r) then 1 else 0)
           (write_file (log_path script_dir) content
              (?v\<lparr>trace := trace w @ removal script_dir w
                   @ map Printed (header ?root @ [found_line (length ?files)])
                   @ evs
                   @ map Printed ([rule80, ''SUMMARY'', rule80, ''Timestamp: '' @ now_isoformat w]
                                  @ summary_lines ?results @ ms)\<rparr>))"
    by blast
  then have "printed (trace (snd (main_sim argv script_dir w)))
      = printed (trace w @ removal script_dir w
                   @ map Printed (header ?root @ [found_line (length ?files)])
                   @ evs
                   @ map Printed ([rule80, ''SUMMARY'', rule80, ''Timestamp: '' @ now_isoformat w]
                                  @ summary_lines ?results @ ms))"
    by (simp add: write_file_printed)
  then have pr: "printed (trace (snd (main_sim argv script_dir w)))
      = (printed (trace w) @ header ?root @ [found_line (length ?files)]
           @ printed evs @ [rule80, ''SUMMARY'', rule80, ''Timestamp: '' @ now_isoformat w])
        @ summary_lines ?results @ ms"
    by (simp add: removal_def)
  show "\<exists>results pre post.
             fst (verify_each_sim ?root ?files [] (?v, [])) = Inr results
           \<and> length results = length ?files
           \<and> map fst results = map (\<lambda>p. relpath w p ?root) ?files
           \<and> printed (trace (snd (main_sim argv script_dir w)))
               = pre @ [''Total: '' @ str_int (int (length ?files)),
                        ''Passed: '' @ str_int (count_passed results),
                        ''Failed: '' @ str_int (int (length results) - count_passed results)] @ post
           \<and> count_passed results + (int (length results) - count_passed results)
               = int (length ?files)"
    using loop pr
    by (intro exI [of _ ?results] exI [of _ ms]
          exI [of _ "printed (trace w) @ header ?root @ [found_line (length ?files)]
           @ printed evs @ [rule80, ''SUMMARY'', rule80, ''Timestamp: '' @ now_isoformat w]"])
       (simp add: summary_lines_def result_of_sim_def comp_def)
qed

subsection \<open>The log file\<close>

text \<open>
  When the log path does not name a directory and writing the log raises nothing: a log
  file that exists is removed before anything else happens, and no other file event occurs
  until the end. When model files were found and the run ends by \<open>sys.exit\<close>, the last events
  are the opening and the single write of the log file, whose content is the printed
  messages joined by newlines plus a final newline, that is, the console text of the run. In
  every other run nothing is written and no log file exists afterwards.
\<close>

lemma log_file_written:
  assumes nd: "\<forall>es. fs w (log_path script_dir) \<noteq> Some (Dir es)"
    and wr: "\<forall>content. write_fault w (log_path script_dir) content = None"
  shows "\<exists>evs. file_events evs = []
     \<and> (if find_model_files (cleared script_dir w) (root_dir_of argv script_dir) \<noteq> []
            \<and> (\<exists>c. fst (main_sim argv script_dir w) = Exit c)
         then snd (main_sim argv script_dir w)
                = w\<lparr>fs := (fs w)(log_path script_dir \<mapsto> File (join_lines (printed evs) @ newline)),
                     trace := trace w @ removal script_dir w @ evs
                              @ [Opened (log_path script_dir),
                                 Wrote (log_path script_dir) (join_lines (printed evs) @ newline)]\<rparr>
              \<and> join_lines (printed evs) @ newline = console_text evs
         else snd (main_sim argv script_dir w)
                = w\<lparr>fs := (fs w)(log_path script_dir := None),
                     trace := trace w @ removal script_dir w @ evs\<rparr>)
     \<and> ((\<exists>e. fst (main_sim argv script_dir w) = Uncaught e)
          \<longrightarrow> fs (snd (main_sim argv script_dir w)) (log_path script_dir) = None)"
proof -
  let ?root = "root_dir_of argv script_dir"
  let ?v = "cleared script_dir w"
  let ?files = "find_model_files ?v ?root"
  let ?m = "''mbal.txt''"
  let ?results = "map (result_of_sim ?v ?root) ?files"
  let ?lp = "log_path script_dir"
  have cl: "?v\<lparr>trace := t\<rparr> = w\<lparr>fs := (fs w)(?lp := None), trace := t\<rparr>" for t
    by (simp add: cleared_def)
  show ?thesis
  proof (cases "?files = []")
    case True
    from main_sim_no_files [OF nd True]
    show ?thesis
      by (intro exI [of _ "map Printed (header ?root @ [''No .ini files found!''])"])
         (simp add: True cl)
  next
    case ne: False
    show ?thesis
    proof (cases "\<forall>p\<in>set ?files. \<exists>out. fst (verify_model_sim p ?m ?v) = Inr out")
      case ok: True
      from main_sim_completes [OF nd ne ok wr] obtain evs ms where r:
        "main_sim argv script_dir w
           = (Exit (if \<exists>r\<in>set ?results. \<not> fst (snd r) then 1 else 0),
              w\<lparr>fs := (fs w)(?lp \<mapsto> File (join_lines
                          (header ?root @ [found_line (length ?files)] @ printed evs
                           @ [rule80, ''SUMMARY'', rule80, ''Timestamp: '' @ now_isoformat w]
                           @ summary_lines ?results @ ms) @ newline)),
                trace := trace w @ removal script_dir w
                   @ map Printed (header ?root @ [found_line (length ?files)])
                   @ evs
                   @ map Printed ([rule80, ''SUMMARY'', rule80, ''Timestamp: '' @ now_isoformat w]
                                  @ summary_lines ?results @ ms)
                   @ [Opened ?lp, Wrote ?lp (join_lines
                          (header ?root @ [found_line (length ?files)] @ printed evs
                           @ [rule80, ''SUMMARY'', rule80, ''Timestamp: '' @ now_isoformat w]
                           @ summary_lines ?results @ ms) @ newline)]\<rparr>)"
        "file_events evs = []"
        by blast
      let ?evs = "map Printed (header ?root @ [found_line (length ?files)]) @ evs
                   @ map Printed ([rule80, ''SUMMARY'', rule80, ''Timestamp: '' @ now_isoformat w]
                                  @ summary_lines ?results @ ms)"
      have p: "printed ?evs = header ?root @ [found_line (length ?files)] @ printed evs
                           @ [rule80, ''SUMMARY'', rule80, ''Timestamp: '' @ now_isoformat w]
                           @ summary_lines ?results @ ms"
        by simp
      have "printed ?evs \<noteq> []"
        unfolding p by (simp add: header_def)
      then have j: "join_lines (printed ?evs) @ newline = console_text ?evs"
        unfolding console_text_def by (rule join_lines_newline)
      have f: "file_events ?evs = []"
        using r(2) by simp
      have c: "\<exists>c. fst (main_sim argv script_dir w) = Exit c"
        unfolding r(1) by simp
      have s: "snd (main_sim argv script_dir w)
                = w\<lparr>fs := (fs w)(?lp \<mapsto> File (join_lines (printed ?evs) @ newline)),
                     trace := trace w @ removal script_dir w @ ?evs
                              @ [Opened ?lp, Wrote ?lp (join_lines (printed ?evs) @ newline)]\<rparr>"
        unfolding r(1) p by simp
      have u: "\<not> (\<exists>e. fst (main_sim argv script_dir w) = Uncaught e)"
        unfolding r(1) by simp
      show ?thesis
        using f c s j u ne by (intro exI [of _ ?evs]) (simp only: if_True simp_thms)
    next
      case bad: False
      then have b: "\<exists>p\<in>set ?files. \<exists>e. fst (verify_model_sim p ?m ?v) = Inl e"
        by (metis sum.exhaust)
      from main_sim_interrupted [OF nd ne b] obtain e evs where r:
        "main_sim argv script_dir w = (Uncaught e, ?v\<lparr>trace := trace w @ removal script_dir w @ evs\<rparr>)"
        "file_events evs = []"
        by blast
      show ?thesis
        using r(2) by (intro exI [of _ evs]) (simp add: r(1) cl)
    qed
  qed
qed

section \<open>The properties on the example world\<close>

lemma example_root [simp]:
  "root_dir_of example_argv script_dir = ''cases''"
  "root_dir_of [''tools/verify_all_models.py'', ''cases/b''] script_dir = ''cases/b''"
  "root_dir_of [''tools/verify_all_models.py'', ''cases/b/mbal.txt''] script_dir = ''cases/b/mbal.txt''"
  "root_dir_of [''tools/verify_all_models.py''] script_dir = script_dir"
  by (simp_all add: root_dir_of_def example_argv_def)

lemma example_log_path [simp]: "log_path ''tools'' = ''tools/verify_all_models_log.txt''"
  by (simp add: log_path_def path_defs)

lemma example_writable [simp]: "write_fault (example_world e) p content = None"
  by (simp add: example_world_def)

lemma example_files_b:
  "find_model_files (example_world e) ''cases/b'' = [''cases/b/model.ini'']"
  by (simp add: find_model_files_def os_walk_def example_world_def example_fs_def
      Let_def path_defs)

lemma example_files:
  "find_model_files (example_world e) ''cases''
     = [''cases/a/model.ini'', ''cases/a/old.ini'', ''cases/b/model.ini'']"
  by (simp add: find_model_files_def os_walk_def example_world_def example_fs_def example_tree_def
      Let_def path_defs)

lemma example_cleared_files:
  "find_model_files (cleared ''tools'' (example_world e)) ''cases''
     = [''cases/a/model.ini'', ''cases/a/old.ini'', ''cases/b/model.ini'']"
  "find_model_files (cleared ''tools'' (example_world e)) ''cases/b'' = [''cases/b/model.ini'']"
  by (simp_all add: find_model_files_def os_walk_def cleared_def example_world_def example_fs_def
      example_tree_def Let_def path_defs)

lemma example_old_path:
  "mbal_path_of ''cases/a/old.ini'' ''mbal.txt'' = ''cases/a/mbal.txt''"
  "mbal_path_of ''cases/a/old.ini'' ''mbal_for_verification.txt''
     = ''cases/a/mbal_for_verification.txt''"
  by (simp_all add: mbal_path_of_def path_defs)

lemma example_cleared_exists:
  "os_path_exists (cleared ''tools'' (example_world e)) ''cases/b/mbal.txt''"
  "\<not> os_path_exists (cleared ''tools'' (example_world e)) ''cases/a/mbal.txt''"
  by (simp_all add: os_path_exists_def cleared_def example_world_def example_fs_def)

lemma example_calls:
  "kalixcli_call ''cases/b/model.ini'' ''mbal_for_verification.txt''
     = \<lparr>args = [''kalixcli'', ''sim'', ''model.ini'', ''-v'', ''mbal_for_verification.txt''],
        cwd = ''cases/b'', timeout = 300\<rparr>"
  "kalix_call ''cases/b/model.ini'' ''mbal.txt''
     = \<lparr>args = [''kalix'', ''simulate'', ''model.ini'', ''-v'', ''mbal.txt''],
        cwd = ''cases/b'', timeout = 300\<rparr>"
  by (simp_all add: kalixcli_call_def kalix_call_def path_defs)

lemma example_outcomes:
  "fst (verify_model ''cases/a/model.ini'' ''mbal_for_verification.txt'' (example_world e))
     = Inr (False, ''Mass balance file not found: cases/a/mbal_for_verification.txt'')"
  "fst (verify_model ''cases/a/old.ini'' ''mbal_for_verification.txt'' (example_world e))
     = Inr (False, ''Mass balance file not found: cases/a/mbal_for_verification.txt'')"
  "fst (verify_model ''cases/b/model.ini'' ''mbal_for_verification.txt''
          (example_world example_engine)) = Inr (True, ''VERIFIED!'')"
  by (simp_all add: verify_model_missing verify_model_run example_mbal_path example_old_path
      example_exists example_calls example_engine_def)

lemma example_outcomes_sim:
  "fst (verify_model_sim ''cases/a/model.ini'' ''mbal.txt'' (cleared ''tools'' (example_world e)))
     = Inr (False, ''Mass balance file not found: cases/a/mbal.txt'')"
  "fst (verify_model_sim ''cases/a/old.ini'' ''mbal.txt'' (cleared ''tools'' (example_world e)))
     = Inr (False, ''Mass balance file not found: cases/a/mbal.txt'')"
  "fst (verify_model_sim ''cases/b/model.ini'' ''mbal.txt''
          (cleared ''tools'' (example_world example_engine))) = Inr (True, ''VERIFIED!'')"
  by (simp_all add: verify_model_missing verify_model_sim_run example_mbal_path example_old_path
      example_cleared_exists example_calls example_engine_def)

lemma example_no_dir:
  "\<forall>es. fs (example_world e) (log_path ''tools'') \<noteq> Some (Dir es)"
  by (simp add: example_world_def example_fs_def)

theorem harness_exit_status_witness:
  "fst (main example_argv ''tools'' (example_world example_engine)) = Exit 1
   \<and> fst (main_sim example_argv ''tools'' (example_world example_engine)) = Exit 1
   \<and> fst (main [''tools/verify_all_models.py'', ''cases/b''] ''tools''
             (example_world example_engine)) = Exit 0
   \<and> fst (main_sim [''tools/verify_all_models.py'', ''cases/b''] ''tools''
             (example_world example_engine)) = Exit 0
   \<and> main [''tools/verify_all_models.py''] ''tools'' (example_world example_engine)
       = (Exit 1, (example_world example_engine)
                    \<lparr>trace := map Printed [''Searching for model files in: tools'', rule80,
                                           ''No .ini files found!'']\<rparr>)"
proof -
  let ?w = "example_world example_engine"
  have e: "find_model_files ?w ''tools'' = []"
    by (simp add: find_model_files_def os_walk_def example_world_def example_fs_def)
  from harness_exit_status [of example_argv "''tools''" ?w]
  have 1: "fst (main example_argv ''tools'' ?w) = Exit 1"
    "fst (main_sim example_argv ''tools'' ?w) = Exit 1"
    using example_no_dir [of example_engine]
    by (simp_all add: example_files example_cleared_files example_outcomes example_outcomes_sim)
       blast+
  from harness_exit_status [of "[''tools/verify_all_models.py'', ''cases/b'']" "''tools''" ?w]
  have 2: "fst (main [''tools/verify_all_models.py'', ''cases/b''] ''tools'' ?w) = Exit 0"
    "fst (main_sim [''tools/verify_all_models.py'', ''cases/b''] ''tools'' ?w) = Exit 0"
    using example_no_dir [of example_engine]
    by (simp_all add: example_files_b example_cleared_files example_outcomes example_outcomes_sim)
  from harness_exit_status [of "[''tools/verify_all_models.py'']" "''tools''" ?w]
  have 3: "main [''tools/verify_all_models.py''] ''tools'' ?w
       = (Exit 1, ?w\<lparr>trace := map Printed [''Searching for model files in: tools'', rule80,
                                           ''No .ini files found!'']\<rparr>)"
    by (simp add: e header_def)
  from 1 2 3 show ?thesis by simp
qed

lemma example_same_files: "same_files example_tree example_tree'"
proof -
  have a: "same_files (Dir [(''model.ini'', File ''[a]''), (''old.ini'', File ''[old]'')])
                      (Dir [(''old.ini'', File []), (''model.ini'', File [])])"
    by (rule same_files.dirs [where es'' = "[(''model.ini'', File []), (''old.ini'', File [])]"])
       (simp_all add: same_files.files)
  have b: "same_files (Dir [(''model.ini'', File ''[b]''), (''mbal.txt'', File ''1''),
                            (''mbal_for_verification.txt'', File ''1'')])
                      (Dir [(''mbal_for_verification.txt'', File ''2''), (''mbal.txt'', File ''2''),
                            (''model.ini'', File [])])"
    by (rule same_files.dirs [where es'' = "[(''model.ini'', File []), (''mbal.txt'', File ''2''),
                            (''mbal_for_verification.txt'', File ''2'')]"])
       (simp_all add: same_files.files)
  show ?thesis
    unfolding example_tree_def example_tree'_def
    by (rule same_files.dirs [where es'' = "[(''notes.txt'', File []),
          (''b'', Dir [(''mbal_for_verification.txt'', File ''2''), (''mbal.txt'', File ''2''),
                       (''model.ini'', File [])]),
          (''a'', Dir [(''old.ini'', File []), (''model.ini'', File [])])]"])
       (simp_all add: same_files.files a b)
qed

lemma example_files_in:
  "files_in (example_world e) ''cases''
     = [(''notes.txt'', ''cases/notes.txt''), (''model.ini'', ''cases/b/model.ini''),
        (''mbal.txt'', ''cases/b/mbal.txt''),
        (''mbal_for_verification.txt'', ''cases/b/mbal_for_verification.txt''),
        (''model.ini'', ''cases/a/model.ini''), (''old.ini'', ''cases/a/old.ini'')]"
  by (simp add: files_in_def example_world_def example_fs_def example_tree_def path_defs)

theorem find_model_files_discovery_witness:
  "fs (example_world example_engine) ''cases'' = Some example_tree
   \<and> fs ((example_world example_engine)\<lparr>fs := [''cases'' \<mapsto> example_tree']\<rparr>) ''cases'' = Some example_tree'
   \<and> same_files example_tree example_tree'
   \<and> find_model_files ((example_world example_engine)\<lparr>fs := [''cases'' \<mapsto> example_tree']\<rparr>) ''cases''
       = find_model_files (example_world example_engine) ''cases''
   \<and> find_model_files (example_world example_engine) ''cases''
       = [''cases/a/model.ini'', ''cases/a/old.ini'', ''cases/b/model.ini'']
   \<and> files_in (example_world example_engine) ''cases''
     = [(''notes.txt'', ''cases/notes.txt''), (''model.ini'', ''cases/b/model.ini''),
        (''mbal.txt'', ''cases/b/mbal.txt''),
        (''mbal_for_verification.txt'', ''cases/b/mbal_for_verification.txt''),
        (''model.ini'', ''cases/a/model.ini''), (''old.ini'', ''cases/a/old.ini'')]"
proof -
  have 1: "fs (example_world example_engine) ''cases'' = Some example_tree"
    by (simp add: example_world_def example_fs_def)
  have 2: "fs ((example_world example_engine)\<lparr>fs := [''cases'' \<mapsto> example_tree']\<rparr>) ''cases'' = Some example_tree'"
    by simp
  from find_model_files_discovery [of "example_world example_engine" "''cases''"] 1 2 example_same_files
  have "find_model_files ((example_world example_engine)\<lparr>fs := [''cases'' \<mapsto> example_tree']\<rparr>) ''cases''
       = find_model_files (example_world example_engine) ''cases''"
    by blast
  with 1 2 example_same_files example_files [of example_engine] example_files_in [of example_engine] show ?thesis
    by simp
qed

lemma example_exit1:
  "fst (main example_argv ''tools'' (example_world example_engine)) = Exit 1"
  "fst (main_sim example_argv ''tools'' (example_world example_engine)) = Exit 1"
proof -
  let ?w = "example_world example_engine"
  show "fst (main example_argv ''tools'' ?w) = Exit 1"
    by (rule main_exit1_if_failed)
       (auto simp add: example_files example_outcomes)
  show "fst (main_sim example_argv ''tools'' ?w) = Exit 1"
    by (rule main_sim_exit1_if_failed)
       (auto simp add: example_no_dir [simplified] example_cleared_files example_outcomes_sim)
qed

lemma str_int_3: "str_int 3 = ''3''"
  by (simp add: str_int_def str_nat.simps digit_char_def)

lemma example_relpath [simp]:
  "relpath (example_world e) p start = drop (Suc (length start)) p"
  by (simp add: example_world_def)

theorem results_cover_models_witness:
  "(\<exists>results pre post.
       fst (verify_each ''cases'' [''cases/a/model.ini'', ''cases/a/old.ini'', ''cases/b/model.ini'']
              [] (example_world example_engine)) = Inr results
     \<and> length results = 3
     \<and> map fst results = [''a/model.ini'', ''a/old.ini'', ''b/model.ini'']
     \<and> printed (trace (snd (main example_argv ''tools'' (example_world example_engine))))
         = pre @ [''Total: 3'', ''Passed: '' @ str_int (count_passed results),
                  ''Failed: '' @ str_int (3 - count_passed results)] @ post
     \<and> count_passed results + (3 - count_passed results) = 3)
   \<and> (\<exists>results pre post.
       fst (verify_each_sim ''cases'' [''cases/a/model.ini'', ''cases/a/old.ini'', ''cases/b/model.ini'']
              [] (cleared ''tools'' (example_world example_engine), [])) = Inr results
     \<and> length results = 3
     \<and> printed (trace (snd (main_sim example_argv ''tools'' (example_world example_engine))))
         = pre @ [''Total: 3'', ''Passed: '' @ str_int (count_passed results),
                  ''Failed: '' @ str_int (3 - count_passed results)] @ post)"
proof -
  let ?w = "example_world example_engine"
  note r = results_cover_models [of ?w example_argv "''tools''" 1]
  have a: "find_model_files ?w (root_dir_of example_argv ''tools'') \<noteq> []
           \<and> fst (main example_argv ''tools'' ?w) = Exit 1"
    by (simp add: example_files example_exit1)
  have b: "find_model_files (cleared ''tools'' ?w) (root_dir_of example_argv ''tools'') \<noteq> []
           \<and> fst (main_sim example_argv ''tools'' ?w) = Exit 1"
    by (simp add: example_cleared_files example_exit1)
  from r [THEN conjunct1, THEN mp, OF a] obtain results pre post where 1:
    "fst (verify_each ''cases'' [''cases/a/model.ini'', ''cases/a/old.ini'', ''cases/b/model.ini'']
              [] ?w) = Inr results"
    "length results = 3"
    "map fst results = [''a/model.ini'', ''a/old.ini'', ''b/model.ini'']"
    "printed (trace (snd (main example_argv ''tools'' ?w)))
         = pre @ [''Total: '' @ str_int 3, ''Passed: '' @ str_int (count_passed results),
                  ''Failed: '' @ str_int (3 - count_passed results)] @ post"
    unfolding example_root example_files by force
  from r [THEN conjunct2, THEN mp, OF b] obtain results' pre' post' where 2:
    "fst (verify_each_sim ''cases'' [''cases/a/model.ini'', ''cases/a/old.ini'', ''cases/b/model.ini'']
              [] (cleared ''tools'' ?w, [])) = Inr results'"
    "length results' = 3"
    "printed (trace (snd (main_sim example_argv ''tools'' ?w)))
         = pre' @ [''Total: '' @ str_int 3, ''Passed: '' @ str_int (count_passed results'),
                  ''Failed: '' @ str_int (3 - count_passed results')] @ post'"
    unfolding example_root example_cleared_files by force
  have "\<exists>results pre post.
       fst (verify_each ''cases'' [''cases/a/model.ini'', ''cases/a/old.ini'', ''cases/b/model.ini'']
              [] ?w) = Inr results
     \<and> length results = 3
     \<and> map fst results = [''a/model.ini'', ''a/old.ini'', ''b/model.ini'']
     \<and> printed (trace (snd (main example_argv ''tools'' ?w)))
         = pre @ [''Total: 3'', ''Passed: '' @ str_int (count_passed results),
                  ''Failed: '' @ str_int (3 - count_passed results)] @ post
     \<and> count_passed results + (3 - count_passed results) = 3"
    using 1 by (intro exI [of _ results] exI [of _ pre] exI [of _ post]) (simp add: str_int_3)
  moreover have "\<exists>results pre post.
       fst (verify_each_sim ''cases'' [''cases/a/model.ini'', ''cases/a/old.ini'', ''cases/b/model.ini'']
              [] (cleared ''tools'' ?w, [])) = Inr results
     \<and> length results = 3
     \<and> printed (trace (snd (main_sim example_argv ''tools'' ?w)))
         = pre @ [''Total: 3'', ''Passed: '' @ str_int (count_passed results),
                  ''Failed: '' @ str_int (3 - count_passed results)] @ post"
    using 2 by (intro exI [of _ results'] exI [of _ pre'] exI [of _ post']) (simp add: str_int_3)
  ultimately show ?thesis by (rule conjI)
qed

theorem verify_model_catches_faults_witness:
  "(\<exists>msg. fst (verify_model ''cases/b/model.ini'' ''mbal_for_verification.txt''
                 (example_world (raises (Exception ''[Errno 2] No such file or directory''))))
             = Inr (False, msg)
          \<and> has_substring msg ''[Errno 2] No such file or directory'')
   \<and> (\<exists>results evs.
         verify_each ''cases'' [''cases/a/model.ini'', ''cases/a/old.ini'', ''cases/b/model.ini''] []
             (example_world (raises (Exception ''[Errno 2] No such file or directory'')))
           = (Inr results,
              (example_world (raises (Exception ''[Errno 2] No such file or directory'')))
                \<lparr>trace := evs\<rparr>)
       \<and> length results = 3
       \<and> runs evs = [kalixcli_call ''cases/b/model.ini'' ''mbal_for_verification.txt''])"
proof -
  let ?e = "''[Errno 2] No such file or directory''"
  let ?w = "example_world (raises (Exception ?e))"
  let ?files = "[''cases/a/model.ini'', ''cases/a/old.ini'', ''cases/b/model.ini'']"
  note r = verify_model_catches_faults
    [of ?w "''cases/b/model.ini''" "''mbal_for_verification.txt''" ?e "''cases''" ?files]
  have a: "os_path_exists ?w (mbal_path_of ''cases/b/model.ini'' ''mbal_for_verification.txt'')
      \<and> engine ?w (kalixcli_call ''cases/b/model.ini'' ''mbal_for_verification.txt'')
          = Inl (Exception ?e)"
    by (simp add: example_mbal_path example_exists raises_def)
  have b: "\<forall>c b. engine ?w c \<noteq> Inl (BaseException b)"
    by (simp add: raises_def)
  have f: "filter (\<lambda>p. os_path_exists ?w (mbal_path_of p ''mbal_for_verification.txt'')) ?files
      = [''cases/b/model.ini'']"
    by (simp add: example_mbal_path example_old_path example_exists)
  from r [THEN conjunct1, THEN mp, OF a]
  have 1: "\<exists>msg. fst (verify_model ''cases/b/model.ini'' ''mbal_for_verification.txt'' ?w)
             = Inr (False, msg) \<and> has_substring msg ?e" .
  from r [THEN conjunct2, THEN conjunct2, THEN conjunct2, THEN mp, OF b, THEN conjunct1]
  obtain results evs where
    "verify_each ''cases'' ?files [] ?w = (Inr results, ?w\<lparr>trace := trace ?w @ evs\<rparr>)"
    "length results = length ?files"
    "runs evs = [kalixcli_call ''cases/b/model.ini'' ''mbal_for_verification.txt'']"
    unfolding f list.map by blast
  then have 2: "\<exists>results evs.
         verify_each ''cases'' ?files [] ?w = (Inr results, ?w\<lparr>trace := evs\<rparr>)
       \<and> length results = 3
       \<and> runs evs = [kalixcli_call ''cases/b/model.ini'' ''mbal_for_verification.txt'']"
    by (intro exI [of _ results] exI [of _ evs]) (simp del: verify_each.simps)
  from 1 2 show ?thesis by (rule conjI)
qed

theorem invalid_root_is_no_files_witness:
  "fs (example_world example_engine) ''cases/b/mbal.txt'' = Some (File ''1'')
   \<and> find_model_files (example_world example_engine) ''cases/b/mbal.txt'' = []
   \<and> main [''tools/verify_all_models.py'', ''cases/b/mbal.txt''] ''tools''
        (example_world example_engine)
       = (Exit 1, (example_world example_engine)
            \<lparr>trace := map Printed [''Searching for model files in: cases/b/mbal.txt'', rule80,
                                   ''No .ini files found!'']\<rparr>)"
proof -
  let ?w = "example_world example_engine"
  have a: "fs ?w ''cases/b/mbal.txt'' = Some (File ''1'')"
    by (simp add: example_world_def example_fs_def)
  then have "fs ?w (root_dir_of [''tools/verify_all_models.py'', ''cases/b/mbal.txt''] ''tools'') = None
           \<or> (\<exists>c. fs ?w (root_dir_of [''tools/verify_all_models.py'', ''cases/b/mbal.txt''] ''tools'')
                  = Some (File c))"
    by simp
  from invalid_root_is_no_files [OF this] a show ?thesis
    by (simp add: header_def)
qed

subsection \<open>A log that cannot be written\<close>

lemma unwritable_facts:
  "\<forall>es. fs unwritable_world (log_path ''tools'') \<noteq> Some (Dir es)"
  "fs unwritable_world (log_path ''tools'') = Some (File ''stale'')"
  "write_fault (cleared ''tools'' unwritable_world) p content
     = Some (Exception ''UnicodeEncodeError'', [])"
  "find_model_files (cleared ''tools'' unwritable_world) ''cases/b'' = [''cases/b/model.ini'']"
  by (simp_all add: find_model_files_def os_walk_def cleared_def unwritable_world_def
      example_world_def example_fs_def Let_def path_defs)

lemma unwritable_outcome:
  "fst (verify_model_sim ''cases/b/model.ini'' ''mbal.txt'' (cleared ''tools'' unwritable_world))
     = Inr (True, ''VERIFIED!'')"
proof -
  have "os_path_exists (cleared ''tools'' unwritable_world) ''cases/b/mbal.txt''"
    by (simp add: os_path_exists_def cleared_def unwritable_world_def example_world_def
        example_fs_def)
  moreover have "engine (cleared ''tools'' unwritable_world) = example_engine"
    by (simp add: cleared_def unwritable_world_def)
  ultimately show ?thesis
    by (simp add: verify_model_sim_run example_mbal_path example_calls example_engine_def)
qed

lemma unwritable_run:
  "fst (main_sim [''tools/verify_all_models.py'', ''cases/b''] ''tools'' unwritable_world)
     = Uncaught (Exception ''UnicodeEncodeError'')"
  "fs (snd (main_sim [''tools/verify_all_models.py'', ''cases/b''] ''tools'' unwritable_world))
      (log_path ''tools'') = Some (File [])"
proof -
  let ?A = "[''tools/verify_all_models.py'', ''cases/b'']"
  let ?W = "unwritable_world"
  let ?lp = "log_path ''tools''"
  have ne: "find_model_files (cleared ''tools'' ?W) (root_dir_of ?A ''tools'') \<noteq> []"
    by (simp add: unwritable_facts)
  have ok: "\<forall>p\<in>set (find_model_files (cleared ''tools'' ?W) (root_dir_of ?A ''tools'')).
       \<exists>out. fst (verify_model_sim p ''mbal.txt'' (cleared ''tools'' ?W)) = Inr out"
    by (auto simp add: unwritable_facts unwritable_outcome)
  from main_sim_ends [OF unwritable_facts(1) ne ok] obtain code content t where r:
    "main_sim ?A ''tools'' ?W
       = finish code (write_file ?lp content ((cleared ''tools'' ?W)\<lparr>trace := t\<rparr>))"
    by blast
  let ?w9 = "(cleared ''tools'' ?W)\<lparr>trace := t\<rparr>"
  have nd9: "\<forall>es. fs ?w9 ?lp \<noteq> Some (Dir es)"
    by (simp del: example_log_path)
  have wf: "write_fault ?w9 ?lp content = Some (Exception ''UnicodeEncodeError'', [])"
    using unwritable_facts(3) [of ?lp content] by simp
  note w = write_file_fault [OF nd9 wf]
  show "fst (main_sim ?A ''tools'' ?W) = Uncaught (Exception ''UnicodeEncodeError'')"
    unfolding r w by (simp add: finish_def)
  show "fs (snd (main_sim ?A ''tools'' ?W)) ?lp = Some (File [])"
    unfolding r w by (simp add: finish_def)
qed

text \<open>
  Claim C4, as stated, fails on the logging variant: on a world where one model file is
  found and its outcome is a success, but the text of the log cannot be written, the run
  ends by the exception of the write and not with status 0.
\<close>

theorem harness_exit_status_counterexample:
  "find_model_files (cleared ''tools'' unwritable_world) ''cases/b'' = [''cases/b/model.ini'']
   \<and> fst (verify_model_sim ''cases/b/model.ini'' ''mbal.txt'' (cleared ''tools'' unwritable_world))
       = Inr (True, ''VERIFIED!'')
   \<and> fst (main_sim [''tools/verify_all_models.py'', ''cases/b''] ''tools'' unwritable_world)
       = Uncaught (Exception ''UnicodeEncodeError'')
   \<and> fst (main_sim [''tools/verify_all_models.py'', ''cases/b''] ''tools'' unwritable_world)
       \<noteq> Exit 0"
  by (simp add: unwritable_facts unwritable_outcome unwritable_run)

text \<open>
  Claim C9 asks that a run which does not complete leaves no log file, as the comment of the
  code does (a failed run should leave no file). The harness opens the log file before it
  writes to it: on a world where an old log exists and the text of the log cannot be
  written, the run ends by the exception of the write and leaves an empty log file behind.
\<close>

theorem log_left_by_failed_write:
  "fs unwritable_world (log_path ''tools'') = Some (File ''stale'')
   \<and> fst (main_sim [''tools/verify_all_models.py'', ''cases/b''] ''tools'' unwritable_world)
       = Uncaught (Exception ''UnicodeEncodeError'')
   \<and> fs (snd (main_sim [''tools/verify_all_models.py'', ''cases/b''] ''tools'' unwritable_world))
        (log_path ''tools'') = Some (File [])"
  by (simp add: unwritable_facts(2) unwritable_run del: example_log_path)

end
